theory Spec2Isabelle
  imports Complex_Main
begin

section \<open>Exceptions, awaited calls and the call trace\<close>

text \<open>
  The repository is a pair of scripts (\<^verbatim>\<open>bridge_l1_to_l2.ts\<close>, \<^verbatim>\<open>bridge_l2_to_l1.ts\<close>) and
  two utility modules (\<^verbatim>\<open>utils/balance.ts\<close>, \<^verbatim>\<open>utils/create_account_from_env.ts\<close>) on top of
  the packages \<^verbatim>\<open>@ravenhouse/bridge-sdk\<close>, \<^verbatim>\<open>@aztec/*\<close> and \<^verbatim>\<open>viem\<close>.  Every call into one of
  these packages is a parameter of the model: a function of an abstract world \<open>'w\<close> (both chains,
  the node, the wallet) that returns a value or throws and may change the world.  The model
  records each such call, in program order, in a trace; logger output is not modelled.
\<close>

datatype exn = Error string | TypeError string

fun exn_message :: "exn \<Rightarrow> string" where
  "exn_message (Error m) = m"
| "exn_message (TypeError m) = m"

type_synonym address = string

type_synonym ('w, 'a) io = "'w \<Rightarrow> (exn + 'a) \<times> 'w"

datatype chain = foundry | sepolia

datatype direction = L1ToL2 | L2ToL1

datatype status = pending | loading | completed | error

datatype step_id =
    approve_l1_allowance
  | deposit_to_l2_portal
  | wait_for_l2_message
  | claim_on_l2
  | burn_on_l2
  | wait_for_proof
  | finalize_withdrawal_on_l1

record bridge_step =
  step_id :: step_id
  label :: string
  status :: status
  description :: "string option"

record token_descriptor =
  symbol :: string
  name :: string
  l1_tokenAddress :: address
  l1_portalAddress :: address
  l2_tokenAddress :: address
  l2_bridgeAddress :: address

record bridge_request =
  token :: token_descriptor
  amount :: string
  isPrivate :: bool

record bridge_result =
  success :: bool
  res_direction :: direction
  res_amount :: string
  res_symbol :: string
  steps :: "bridge_step list"
  message :: string
  finalTxHash :: "string option"
  explorerUrl :: "string option"

record read_request =
  rr_address :: address
  functionName :: string
  args :: "address list"

datatype call =
    Call_privateKeyToAccount string
  | Call_createExtendedL1Client "string list" address chain
  | Call_CachedAztecNode_initialize string
  | Call_CachedAztecNode_getInstance
  | Call_waitForNode
  | Call_TestWallet_create bool
  | Call_createSchnorrAccount nat nat nat
  | Call_getAccounts
  | Call_getAccount
  | Call_getSponsoredFPCInstance
  | Call_new_SponsoredFeePaymentMethod address
  | Call_registerContract address
  | Call_getContract address
  | Call_TokenContract_at address
  | Call_new_TestWalletAdapter address
  | Call_new_CompliantBridge string
  | Call_readContract read_request
  | Call_balance_of_public address
  | Call_balance_of_private address
  | Call_bridgeL1ToL2 bridge_request
  | Call_bridgeL2ToL1 bridge_request
  | OnStep bridge_step

type_synonym ('w, 'a) prog = "call list \<times> 'w \<Rightarrow> (exn + 'a) \<times> call list \<times> 'w"

definition return_p :: "'a \<Rightarrow> ('w, 'a) prog" where
  "return_p a s = (Inr a, s)"

definition throw_p :: "exn \<Rightarrow> ('w, 'a) prog" where
  "throw_p e s = (Inl e, s)"

definition bind_p :: "('w, 'a) prog \<Rightarrow> ('a \<Rightarrow> ('w, 'b) prog) \<Rightarrow> ('w, 'b) prog" where
  "bind_p m f s = (case m s of (Inl e, s') \<Rightarrow> (Inl e, s') | (Inr a, s') \<Rightarrow> f a s')"

definition try_catch :: "('w, 'a) prog \<Rightarrow> (exn \<Rightarrow> ('w, 'a) prog) \<Rightarrow> ('w, 'a) prog" where
  "try_catch m h s = (case m s of (Inl e, s') \<Rightarrow> h e s' | (Inr a, s') \<Rightarrow> (Inr a, s'))"

definition call_p :: "call \<Rightarrow> ('w, 'a) io \<Rightarrow> ('w, 'a) prog" where
  "call_p c f s = (case s of (t, w) \<Rightarrow> (case f w of (r, w') \<Rightarrow> (r, (t @ [c], w'))))"

section \<open>utils/balance.ts\<close>

record 'w l1_client =
  account_address :: address
  readContract :: "read_request \<Rightarrow> ('w, int) io"

text \<open>
  A call that is not awaited where it is made, such as
  \<^verbatim>\<open>tokenContract.methods.balance_of_public(owner).simulate({from: owner})\<close> inside an array
  literal: evaluating the expression either throws at once, or returns a promise, which later
  fulfils with a value (\<open>Inr\<close>) or rejects (\<open>Inl\<close>).
\<close>

datatype 'a started = Threw exn | Started "exn + 'a"

type_synonym ('w, 'a) start = "'w \<Rightarrow> 'a started \<times> 'w"

definition start_p ::
  "call \<Rightarrow> ('w, 'a) start \<Rightarrow> call list \<times> 'w \<Rightarrow> 'a started \<times> call list \<times> 'w" where
  "start_p c f s = (case s of (t, w) \<Rightarrow> (case f w of (r, w') \<Rightarrow> (r, (t @ [c], w'))))"

record 'w token_contract =
  balance_of_public :: "address \<Rightarrow> ('w, int) start"
  balance_of_private :: "address \<Rightarrow> ('w, int) start"
  private_settles_first :: bool

record l2_balances =
  l2_public :: int
  l2_private :: int

definition getL1TokenBalance ::
  "'w l1_client \<Rightarrow> address \<Rightarrow> address \<Rightarrow> ('w, int) prog" where
  "getL1TokenBalance l1Client tokenAddress walletAddress =
     (let req = \<lparr>rr_address = tokenAddress, functionName = ''balanceOf'', args = [walletAddress]\<rparr>
      in call_p (Call_readContract req) (readContract l1Client req))"

text \<open>
  \<^verbatim>\<open>await Promise.all([p, q])\<close> where \<open>p\<close> and \<open>q\<close> are call expressions: the elements of the
  array literal are evaluated left to right.  When evaluating the first throws, the second is
  never evaluated and the exception propagates; when the second throws, the first call has been
  made and its promise is dropped.  Otherwise both calls have been issued before anything is
  awaited: the result is fulfilled with both values when both promises fulfil and rejected with
  the reason of the promise that rejects first.  Which of two rejecting promises rejects first
  is timing, given as \<open>second_first\<close>.
\<close>

definition promise_all2 ::
  "bool \<Rightarrow> (call list \<times> 'w \<Rightarrow> 'a started \<times> call list \<times> 'w)
        \<Rightarrow> (call list \<times> 'w \<Rightarrow> 'b started \<times> call list \<times> 'w) \<Rightarrow> ('w, 'a \<times> 'b) prog" where
  "promise_all2 second_first p q s =
     (case p s of
        (Threw e, s1) \<Rightarrow> (Inl e, s1)
      | (Started ra, s1) \<Rightarrow>
          (case q s1 of
             (Threw e, s2) \<Rightarrow> (Inl e, s2)
           | (Started rb, s2) \<Rightarrow>
               (case (ra, rb) of
                  (Inr a, Inr b) \<Rightarrow> (Inr (a, b), s2)
                | (Inl e, Inr b) \<Rightarrow> (Inl e, s2)
                | (Inr a, Inl e) \<Rightarrow> (Inl e, s2)
                | (Inl e1, Inl e2) \<Rightarrow> (Inl (if second_first then e2 else e1), s2))))"

definition getL2TokenBalances ::
  "'w token_contract \<Rightarrow> address \<Rightarrow> ('w, l2_balances) prog" where
  "getL2TokenBalances tokenContract ownerAddress =
     bind_p
       (promise_all2 (private_settles_first tokenContract)
          (start_p (Call_balance_of_public ownerAddress)
             (balance_of_public tokenContract ownerAddress))
          (start_p (Call_balance_of_private ownerAddress)
             (balance_of_private tokenContract ownerAddress)))
       (\<lambda>(publicBalance, privateBalance).
          return_p \<lparr>l2_public = publicBalance, l2_private = privateBalance\<rparr>)"

subsection \<open>formatBalance\<close>

definition digit_char :: "nat \<Rightarrow> char" where
  "digit_char d = ''0123456789'' ! d"

fun nat_to_digits :: "nat \<Rightarrow> string" where
  "nat_to_digits n =
     (if n < 10 then [digit_char n] else nat_to_digits (n div 10) @ [digit_char (n mod 10)])"

declare nat_to_digits.simps [simp del]

definition padStart :: "nat \<Rightarrow> char \<Rightarrow> string \<Rightarrow> string" where
  "padStart n c s = replicate (n - length s) c @ s"

definition strip_trailing_zeros :: "string \<Rightarrow> string" where
  "strip_trailing_zeros s = rev (dropWhile (\<lambda>c. c = CHR ''0'') (rev s))"

text \<open>
  Modelled from the spec: \<^verbatim>\<open>formatUnits\<close> is imported from \<^verbatim>\<open>viem\<close> and is not in the
  repository.  The spec (section 6) gives it as standard fixed-point scaling: divide by
  \<open>10^decimals\<close> and render without losing precision; its example renders
  \<open>1500000000000000000\<close> at 18 decimals as \<^verbatim>\<open>1.5\<close>, so the fraction is written with its
  trailing zeros removed and the point is left out when the fraction is empty.
\<close>

definition formatUnits :: "int \<Rightarrow> nat \<Rightarrow> string" where
  "formatUnits v decimals =
     (let a = nat \<bar>v\<bar>;
          integer = nat_to_digits (a div 10 ^ decimals);
          fraction = strip_trailing_zeros
                       (padStart decimals (CHR ''0'') (nat_to_digits (a mod 10 ^ decimals)))
      in (if v < 0 then ''-'' else '''') @ integer
           @ (if fraction = [] then [] else CHR ''.'' # fraction))"

text \<open>\<^verbatim>\<open>formatBalance(balance, decimals = 18)\<close>: an argument left out is \<open>None\<close>.\<close>

definition formatBalance :: "int \<Rightarrow> nat option \<Rightarrow> string" where
  "formatBalance balance decimals =
     formatUnits balance (case decimals of None \<Rightarrow> 18 | Some d \<Rightarrow> d)"

text \<open>
  The value of a decimal numeral in canonical form: an optional minus sign (never on zero), an
  integer part of digits without a redundant leading zero and, optionally, a point followed by
  fraction digits that do not end in zero.  Any other string has no value.  The reading does not
  know the token's decimal count: exactness of the rendering is stated against it.
\<close>

definition is_digit :: "char \<Rightarrow> bool" where
  "is_digit c = (c \<in> set ''0123456789'')"

definition digit_val :: "char \<Rightarrow> nat" where
  "digit_val c = of_char c - 48"

definition digits_value :: "string \<Rightarrow> nat" where
  "digits_value s = foldl (\<lambda>acc c. 10 * acc + digit_val c) 0 s"

definition decimal_value :: "string \<Rightarrow> rat option" where
  "decimal_value s =
     (let negative = (take 1 s = ''-'');
          body = (if negative then drop 1 s else s);
          integer = takeWhile (\<lambda>c. c \<noteq> CHR ''.'') body;
          rest = dropWhile (\<lambda>c. c \<noteq> CHR ''.'') body;
          fraction = drop 1 rest;
          magnitude = of_nat (digits_value integer)
                        + of_nat (digits_value fraction) / 10 ^ length fraction
      in if integer \<noteq> [] \<and> list_all is_digit integer
            \<and> (integer = ''0'' \<or> take 1 integer \<noteq> ''0'')
            \<and> (rest = [] \<or> (fraction \<noteq> [] \<and> list_all is_digit fraction
                              \<and> last fraction \<noteq> CHR ''0''))
            \<and> (negative \<longrightarrow> magnitude \<noteq> 0)
         then Some (if negative then - magnitude else magnitude)
         else None)"

text \<open>
  \<open>logBalances\<close> reads the three balances and logs them; its label, symbol and logger arguments
  only shape the log lines.
\<close>

definition logBalances ::
  "'w l1_client \<Rightarrow> address \<Rightarrow> address \<Rightarrow> 'w token_contract \<Rightarrow> address \<Rightarrow> ('w, unit) prog" where
  "logBalances l1Client l1TokenAddress l1WalletAddress tokenContract l2OwnerAddress =
     bind_p (getL1TokenBalance l1Client l1TokenAddress l1WalletAddress) (\<lambda>l1Balance.
     bind_p (getL2TokenBalances tokenContract l2OwnerAddress) (\<lambda>l2Balances.
     return_p ()))"

section \<open>JavaScript helpers used by the scripts\<close>

text \<open>
  \<open>process.env\<close> after \<^verbatim>\<open>dotenv.config()\<close> is a partial map from names to strings.  A value is
  falsy when it is unset or the empty string: \<^verbatim>\<open>!x\<close> holds and \<^verbatim>\<open>x || d\<close> is \<open>d\<close>.
\<close>

type_synonym env = "string \<Rightarrow> string option"

definition truthy :: "string option \<Rightarrow> string option" where
  "truthy v = (case v of None \<Rightarrow> None | Some s \<Rightarrow> if s = [] then None else Some s)"

definition or_default :: "string option \<Rightarrow> string \<Rightarrow> string" where
  "or_default v d = (case truthy v of None \<Rightarrow> d | Some s \<Rightarrow> s)"

text \<open>
  \<^verbatim>\<open>s.replace(pat, rep)\<close> with a string pattern replaces the first occurrence of \<open>pat\<close> in \<open>s\<close>,
  wherever it is, and nothing else.
\<close>

fun replace_first :: "string \<Rightarrow> string \<Rightarrow> string \<Rightarrow> string" where
  "replace_first pat rep [] = (if pat = [] then rep else [])"
| "replace_first pat rep (c # cs) =
     (if take (length pat) (c # cs) = pat then rep @ drop (length pat) (c # cs)
      else c # replace_first pat rep cs)"

text \<open>\<^verbatim>\<open>s.split(sep)\<close> for a one-character separator.\<close>

fun split :: "char \<Rightarrow> string \<Rightarrow> string list" where
  "split sep [] = [[]]"
| "split sep (c # cs) =
     (if c = sep then [] # split sep cs
      else (case split sep cs of [] \<Rightarrow> [[c]] | x # xs \<Rightarrow> (c # x) # xs))"

definition lift_p :: "exn + 'a \<Rightarrow> ('w, 'a) prog" where
  "lift_p r = (case r of Inl e \<Rightarrow> throw_p e | Inr a \<Rightarrow> return_p a)"

section \<open>The packages the scripts call\<close>

record network_config =
  nc_name :: string
  l1RpcUrl :: string
  nodeUrl :: string
  skipSandbox :: bool
  tokens :: "token_descriptor list"
  zk_verify :: string

text \<open>
  One field per imported function the scripts call.  \<open>networks\<close> is the SDK's table of
  environments, by its own entries, and \<open>inherited_key\<close> says which other names the table
  object answers with a value it inherits (for a plain object the members of
  \<^verbatim>\<open>Object.prototype\<close>: \<^verbatim>\<open>constructor\<close>, \<^verbatim>\<open>toString\<close>, \<^verbatim>\<open>__proto__\<close>, ...); \<open>getContract\<close> returns whether the node knows an instance at the address;
  the methods of the bridge object take the network configuration it was constructed with; a
  bridge call returns the steps it passed to \<^verbatim>\<open>onStep\<close>, in order, and its result or the
  exception it threw.  \<^verbatim>\<open>getSponsoredFPCInstance\<close> (\<^verbatim>\<open>utils/sponsored_fpc.ts\<close>) is taken as a
  parameter like the packages.
\<close>

record 'w sdk =
  networks :: "string \<Rightarrow> network_config option"
  inherited_key :: "string \<Rightarrow> bool"
  privateKeyToAccount :: "string \<Rightarrow> ('w, address) io"
  createExtendedL1Client :: "string list \<Rightarrow> address \<Rightarrow> chain \<Rightarrow> ('w, 'w l1_client) io"
  CachedAztecNode_initialize :: "string \<Rightarrow> ('w, unit) io"
  CachedAztecNode_getInstance :: "('w, unit) io"
  waitForNode :: "('w, unit) io"
  TestWallet_create :: "bool \<Rightarrow> ('w, unit) io"
  Fr_fromString :: "string \<Rightarrow> exn + nat"
  GrumpkinScalar_fromString :: "string \<Rightarrow> exn + nat"
  createSchnorrAccount :: "nat \<Rightarrow> nat \<Rightarrow> nat \<Rightarrow> ('w, address) io"
  getAccounts :: "('w, address list) io"
  getAccount :: "address \<Rightarrow> ('w, address) io"
  getSponsoredFPCInstance :: "('w, address) io"
  new_SponsoredFeePaymentMethod :: "address \<Rightarrow> ('w, unit) io"
  registerContract :: "address \<Rightarrow> ('w, unit) io"
  AztecAddress_fromString :: "string \<Rightarrow> exn + address"
  getContract :: "address \<Rightarrow> ('w, bool) io"
  TokenContract_at :: "address \<Rightarrow> ('w, 'w token_contract) io"
  new_TestWalletAdapter :: "address \<Rightarrow> ('w, unit) io"
  new_CompliantBridge :: "network_config \<Rightarrow> ('w, unit) io"
  getToken :: "network_config \<Rightarrow> string \<Rightarrow> token_descriptor option"
  bridgeL1ToL2 :: "network_config \<Rightarrow> bridge_request
                     \<Rightarrow> 'w \<Rightarrow> (bridge_step list \<times> (exn + bridge_result)) \<times> 'w"
  bridgeL2ToL1 :: "network_config \<Rightarrow> bridge_request
                     \<Rightarrow> 'w \<Rightarrow> (bridge_step list \<times> (exn + bridge_result)) \<times> 'w"

section \<open>utils/create_account_from_env.ts\<close>

definition createAccountFromEnv :: "'w sdk \<Rightarrow> env \<Rightarrow> ('w, address) prog" where
  "createAccountFromEnv sdk env =
     (case truthy (env ''ADMIN_SECRET_KEY'') of
        None \<Rightarrow> throw_p (Error
          ''ADMIN_SECRET_KEY environment variable is required. Please set it in your .env file.'')
      | Some secretEnv \<Rightarrow>
     (case truthy (env ''ADMIN_SIGNING_KEY'') of
        None \<Rightarrow> throw_p (Error
          ''ADMIN_SIGNING_KEY environment variable is required. Please set it in your .env file.'')
      | Some signingKeyEnv \<Rightarrow>
     (case truthy (env ''ADMIN_SALT'') of
        None \<Rightarrow> throw_p (Error
          ''ADMIN_SALT environment variable is required. Please set it in your .env file.'')
      | Some saltEnv \<Rightarrow>
     bind_p
       (try_catch
          (bind_p (lift_p (Fr_fromString sdk secretEnv)) (\<lambda>secretKey.
           bind_p (lift_p (GrumpkinScalar_fromString sdk signingKeyEnv)) (\<lambda>signingKey.
           bind_p (lift_p (Fr_fromString sdk saltEnv)) (\<lambda>salt.
           return_p (secretKey, signingKey, salt)))))
          (\<lambda>e. throw_p (Error
            (''Invalid SECRET or SALT format. Please ensure they are valid hex strings starting with ''
               @ [CHR 0x22] @ ''0x'' @ [CHR 0x22] @ ''.''))))
       (\<lambda>(secretKey, signingKey, salt).
     bind_p (call_p (Call_createSchnorrAccount secretKey salt signingKey)
               (createSchnorrAccount sdk secretKey salt signingKey)) (\<lambda>accountAddress.
     bind_p
       (try_catch
          (bind_p (call_p Call_getAccounts (getAccounts sdk)) (\<lambda>registeredAccounts. return_p ()))
          (\<lambda>e. return_p ())) (\<lambda>_.
     return_p accountAddress))))))"

definition getAccountFromEnv :: "'w sdk \<Rightarrow> env \<Rightarrow> ('w, address) prog" where
  "getAccountFromEnv sdk env = createAccountFromEnv sdk env"

section \<open>The bridge scripts\<close>

text \<open>
  The two scripts are the same program up to the default amount, the bridge method they call and
  their log texts; \<open>script\<close> says which one runs.
\<close>

datatype script = bridge_l1_to_l2 | bridge_l2_to_l1

text \<open>
  What \<^verbatim>\<open>networks[ENV]\<close> evaluates to when it is not \<^verbatim>\<open>undefined\<close>: a network configuration,
  or the value of an inherited property, which is truthy and has no \<^verbatim>\<open>network\<close> field.
\<close>

datatype table_entry = Network network_config | Inherited string

text \<open>
  The constants of the module.  \<^verbatim>\<open>networkConfig\<close> is a \<open>table_entry\<close> at module level and a
  \<open>network_config\<close> once \<open>main\<close> has read its \<^verbatim>\<open>network\<close> field.
\<close>

record 'n config =
  BRIDGE_AMOUNT :: string
  BRIDGE_PRIVATE :: bool
  ENV :: string
  networkConfig :: 'n

datatype outcome =
    Completed bridge_result
  | Exit1_InvalidEnv string
  | Exit1_Unhandled exn
  | Exit1_BridgeFailed string

fun exit_code :: "outcome \<Rightarrow> nat" where
  "exit_code (Completed r) = 0"
| "exit_code (Exit1_InvalidEnv m) = 1"
| "exit_code (Exit1_Unhandled e) = 1"
| "exit_code (Exit1_BridgeFailed m) = 1"

text \<open>\<^verbatim>\<open>networks[ENV]\<close>: an own entry, else an inherited property, else \<^verbatim>\<open>undefined\<close>.\<close>

definition lookup_network :: "'w sdk \<Rightarrow> string \<Rightarrow> table_entry option" where
  "lookup_network sdk e =
     (case networks sdk e of
        Some nc \<Rightarrow> Some (Network nc)
      | None \<Rightarrow> if inherited_key sdk e then Some (Inherited e) else None)"

text \<open>
  The statements at module level, before \<^verbatim>\<open>main()\<close> is called.  The guard
  \<^verbatim>\<open>if (!networkConfig)\<close> fires only when the lookup gave \<^verbatim>\<open>undefined\<close>.
\<close>

definition module_init :: "script \<Rightarrow> 'w sdk \<Rightarrow> env \<Rightarrow> string + table_entry config" where
  "module_init sc sdk env =
     (let amount = or_default (env ''BRIDGE_AMOUNT'')
                     (case sc of bridge_l1_to_l2 \<Rightarrow> ''2'' | bridge_l2_to_l1 \<Rightarrow> ''1'');
          priv = (env ''BRIDGE_PRIVATE'' = Some ''true'');
          e = or_default (env ''AZTEC_ENV'') ''devnet''
      in case lookup_network sdk e of
           None \<Rightarrow> Inl (''Invalid AZTEC_ENV: '' @ e @ ''. Must be one of: devnet, sandbox, testnet'')
         | Some entry \<Rightarrow>
             Inr \<lparr>BRIDGE_AMOUNT = amount, BRIDGE_PRIVATE = priv, ENV = e,
                  networkConfig = entry\<rparr>)"

definition normalize_private_key :: "string \<Rightarrow> string" where
  "normalize_private_key privateKey = ''0x'' @ replace_first ''0x'' [] privateKey"

definition setup_l1_wallet :: "'w sdk \<Rightarrow> env \<Rightarrow> network_config config \<Rightarrow> ('w, 'w l1_client) prog" where
  "setup_l1_wallet sdk env cfg =
     (case truthy (env ''ETHEREUM_WALLET_PRIVATE_KEY'') of
        None \<Rightarrow> throw_p (Error ''ETHEREUM_WALLET_PRIVATE_KEY environment variable is required'')
      | Some privateKey \<Rightarrow>
          bind_p (call_p (Call_privateKeyToAccount (normalize_private_key privateKey))
                    (privateKeyToAccount sdk (normalize_private_key privateKey)))
            (\<lambda>privateKeyAccount.
               (let chain = (if ENV cfg = ''sandbox'' then foundry else sepolia);
                    urls = split (CHR '','') (l1RpcUrl (networkConfig cfg))
                in call_p (Call_createExtendedL1Client urls privateKeyAccount chain)
                     (createExtendedL1Client sdk urls privateKeyAccount chain))))"

text \<open>
  The block both scripts run once for the bridge contract and once for the token contract of
  \<^verbatim>\<open>networkConfig.tokens[0]\<close>: look the instance up on the node, fail if there is none, register
  it with the wallet.  Reading \<^verbatim>\<open>tokens[0].l2\<close> of an empty token list is a TypeError.
\<close>

definition register_deployed ::
  "'w sdk \<Rightarrow> network_config config \<Rightarrow> (token_descriptor \<Rightarrow> address) \<Rightarrow> string
     \<Rightarrow> ('w, address) prog" where
  "register_deployed sdk cfg field what =
     (case tokens (networkConfig cfg) of
        [] \<Rightarrow> throw_p (TypeError ''undefined is not an object'')
      | tok # _ \<Rightarrow>
          bind_p (lift_p (AztecAddress_fromString sdk (field tok))) (\<lambda>addr.
          bind_p (call_p (Call_getContract addr) (getContract sdk addr)) (\<lambda>found.
          if \<not> found then throw_p (Error (what @ '' contract not found at '' @ field tok))
          else bind_p (call_p (Call_registerContract addr) (registerContract sdk addr)) (\<lambda>_.
               return_p (field tok)))))"

definition setup_l2_wallet ::
  "'w sdk \<Rightarrow> env \<Rightarrow> network_config config \<Rightarrow> ('w, address \<times> 'w token_contract) prog" where
  "setup_l2_wallet sdk env cfg =
     bind_p (call_p (Call_CachedAztecNode_initialize (nodeUrl (networkConfig cfg)))
               (CachedAztecNode_initialize sdk (nodeUrl (networkConfig cfg)))) (\<lambda>_.
     bind_p (call_p Call_CachedAztecNode_getInstance (CachedAztecNode_getInstance sdk)) (\<lambda>_.
     bind_p (call_p Call_waitForNode (waitForNode sdk)) (\<lambda>_.
     bind_p (call_p (Call_TestWallet_create (skipSandbox (networkConfig cfg)))
               (TestWallet_create sdk (skipSandbox (networkConfig cfg)))) (\<lambda>_.
     bind_p (getAccountFromEnv sdk env) (\<lambda>accountManager.
     bind_p (call_p Call_getAccount (getAccount sdk accountManager)) (\<lambda>ownerAztecAddress.
     bind_p (call_p Call_getSponsoredFPCInstance (getSponsoredFPCInstance sdk)) (\<lambda>sponsoredFPC.
     bind_p (call_p (Call_registerContract sponsoredFPC) (registerContract sdk sponsoredFPC)) (\<lambda>_.
     bind_p (call_p (Call_new_SponsoredFeePaymentMethod sponsoredFPC)
               (new_SponsoredFeePaymentMethod sdk sponsoredFPC)) (\<lambda>_.
     bind_p (register_deployed sdk cfg l2_bridgeAddress ''Bridge'') (\<lambda>bridgeAddress.
     bind_p (register_deployed sdk cfg l2_tokenAddress ''Token'') (\<lambda>tokenAddress.
     bind_p (lift_p (AztecAddress_fromString sdk tokenAddress)) (\<lambda>addr.
     bind_p (call_p (Call_TokenContract_at addr) (TokenContract_at sdk addr)) (\<lambda>tokenContract.
     bind_p (call_p (Call_new_TestWalletAdapter ownerAztecAddress)
               (new_TestWalletAdapter sdk ownerAztecAddress)) (\<lambda>_.
     return_p (ownerAztecAddress, tokenContract)))))))))))))))"

record 'w script_context =
  l1Client :: "'w l1_client"
  ownerAztecAddress :: address
  tokenContract :: "'w token_contract"
  rhtToken :: token_descriptor

text \<open>\<^verbatim>\<open>main\<close> up to the \<^verbatim>\<open>try\<close> block: steps 1 to 3 and the balances before bridging.\<close>

definition prepare :: "'w sdk \<Rightarrow> env \<Rightarrow> network_config config \<Rightarrow> ('w, 'w script_context) prog" where
  "prepare sdk env cfg =
     bind_p (setup_l1_wallet sdk env cfg) (\<lambda>l1.
     bind_p (setup_l2_wallet sdk env cfg) (\<lambda>(owner, tc).
     bind_p (call_p (Call_new_CompliantBridge (zk_verify (networkConfig cfg)))
               (new_CompliantBridge sdk (networkConfig cfg))) (\<lambda>_.
     (case getToken sdk (networkConfig cfg) ''RHT'' of
        None \<Rightarrow> throw_p (Error ''RHT token not found in network configuration'')
      | Some rht \<Rightarrow>
          bind_p (logBalances l1 (l1_tokenAddress rht) (account_address l1) tc owner) (\<lambda>_.
          return_p \<lparr>l1Client = l1, ownerAztecAddress = owner, tokenContract = tc,
                    rhtToken = rht\<rparr>)))))"

text \<open>
  The call \<^verbatim>\<open>bridge.bridgeL1ToL2({token, amount, isPrivate, onStep})\<close> (or \<^verbatim>\<open>bridgeL2ToL1\<close>): the
  trace gets the call and then every step the bridge hands to \<^verbatim>\<open>onStep\<close>.
\<close>

definition bridge_call ::
  "script \<Rightarrow> 'w sdk \<Rightarrow> network_config \<Rightarrow> bridge_request \<Rightarrow> ('w, bridge_result) prog" where
  "bridge_call sc sdk nc req s =
     (case s of (t, w) \<Rightarrow>
        (case sc of
           bridge_l1_to_l2 \<Rightarrow>
             (case bridgeL1ToL2 sdk nc req w of
                ((ev, r), w') \<Rightarrow> (r, (t @ [Call_bridgeL1ToL2 req] @ map OnStep ev, w')))
         | bridge_l2_to_l1 \<Rightarrow>
             (case bridgeL2ToL1 sdk nc req w of
                ((ev, r), w') \<Rightarrow> (r, (t @ [Call_bridgeL2ToL1 req] @ map OnStep ev, w')))))"

text \<open>The body of the \<^verbatim>\<open>try\<close> block: the bridge call and the balances after it.\<close>

definition bridge_and_report ::
  "script \<Rightarrow> 'w sdk \<Rightarrow> network_config config \<Rightarrow> 'w script_context
     \<Rightarrow> ('w, bridge_result) prog" where
  "bridge_and_report sc sdk cfg ctx =
     bind_p (bridge_call sc sdk (networkConfig cfg)
               \<lparr>token = rhtToken ctx, amount = BRIDGE_AMOUNT cfg, isPrivate = BRIDGE_PRIVATE cfg\<rparr>)
       (\<lambda>result.
     bind_p (logBalances (l1Client ctx) (l1_tokenAddress (rhtToken ctx))
               (account_address (l1Client ctx)) (tokenContract ctx) (ownerAztecAddress ctx)) (\<lambda>_.
     return_p result))"

text \<open>
  Steps 1 to 4 of \<^verbatim>\<open>main\<close> with \<^verbatim>\<open>main().catch(...)\<close>: an exception before the \<^verbatim>\<open>try\<close> block
  reaches the handler at the end of the file, one inside it the \<^verbatim>\<open>catch\<close> of \<^verbatim>\<open>main\<close>; both
  end in \<^verbatim>\<open>process.exit(1)\<close>.
\<close>

definition main_steps ::
  "script \<Rightarrow> 'w sdk \<Rightarrow> env \<Rightarrow> network_config config \<Rightarrow> 'w \<Rightarrow> outcome \<times> call list \<times> 'w" where
  "main_steps sc sdk env cfg w =
     (case prepare sdk env cfg ([], w) of
        (Inl e, s) \<Rightarrow> (Exit1_Unhandled e, s)
      | (Inr ctx, s) \<Rightarrow>
          (case bridge_and_report sc sdk cfg ctx s of
             (Inl e, s') \<Rightarrow> (Exit1_BridgeFailed (exn_message e), s')
           | (Inr result, s') \<Rightarrow> (Completed result, s')))"

text \<open>
  \<^verbatim>\<open>main\<close> opens with log lines, one of which reads \<^verbatim>\<open>networkConfig.network.l1RpcUrl\<close>: on an
  inherited property \<^verbatim>\<open>networkConfig.network\<close> is \<^verbatim>\<open>undefined\<close> and the read is a TypeError
  (its text is the engine's), before step 1.
\<close>

definition main ::
  "script \<Rightarrow> 'w sdk \<Rightarrow> env \<Rightarrow> table_entry config \<Rightarrow> 'w \<Rightarrow> outcome \<times> call list \<times> 'w" where
  "main sc sdk env cfg w =
     (case networkConfig cfg of
        Inherited k \<Rightarrow>
          (Exit1_Unhandled
             (TypeError ''undefined is not an object (evaluating networkConfig.network.l1RpcUrl)''),
           ([], w))
      | Network nc \<Rightarrow>
          main_steps sc sdk env
            \<lparr>BRIDGE_AMOUNT = BRIDGE_AMOUNT cfg, BRIDGE_PRIVATE = BRIDGE_PRIVATE cfg,
             ENV = ENV cfg, networkConfig = nc\<rparr> w)"

definition run_script :: "script \<Rightarrow> 'w sdk \<Rightarrow> env \<Rightarrow> 'w \<Rightarrow> outcome \<times> call list \<times> 'w" where
  "run_script sc sdk env w =
     (case module_init sc sdk env of
        Inl msg \<Rightarrow> (Exit1_InvalidEnv msg, ([], w))
      | Inr cfg \<Rightarrow> main sc sdk env cfg w)"

section \<open>The orchestration core of the SDK\<close>

text \<open>
  Modelled from the spec: \<^verbatim>\<open>CompliantBridge\<close> (\<^verbatim>\<open>getToken\<close>, \<^verbatim>\<open>bridgeL1ToL2\<close>, \<^verbatim>\<open>bridgeL2ToL1\<close>)
  and the step machine behind it are in the package \<^verbatim>\<open>@ravenhouse/bridge-sdk\<close>; the repository
  holds only their callers.  The definitions of this section follow sections 3, 4.1, 4.2, 4.4
  and 7 of the spec.
\<close>

text \<open>
  Modelled from the spec: \<^verbatim>\<open>getToken(symbol) -> TokenDescriptor | not-found\<close> looks the symbol up
  among the tokens of the network configuration (section 4.2; a token's identity is its symbol).
\<close>

definition CompliantBridge_getToken :: "network_config \<Rightarrow> string \<Rightarrow> token_descriptor option" where
  "CompliantBridge_getToken nc sy = find (\<lambda>t. symbol t = sy) (tokens nc)"

text \<open>
  Modelled from the spec: the step sequence of each direction (section 4.1).  Every step starts
  \<open>pending\<close>.  Private mode changes what the claim step (L1 to L2) and the burn step (L2 to L1)
  do, not which steps there are.
\<close>

definition step_table :: "direction \<Rightarrow> step_id list" where
  "step_table dir =
     (case dir of
        L1ToL2 \<Rightarrow> [approve_l1_allowance, deposit_to_l2_portal, wait_for_l2_message, claim_on_l2]
      | L2ToL1 \<Rightarrow> [burn_on_l2, wait_for_proof, finalize_withdrawal_on_l1])"

fun step_label :: "bool \<Rightarrow> step_id \<Rightarrow> string" where
  "step_label priv approve_l1_allowance = ''approve L1 allowance''"
| "step_label priv deposit_to_l2_portal = ''deposit to L2 portal''"
| "step_label priv wait_for_l2_message = ''wait for L2 message availability''"
| "step_label priv claim_on_l2 =
     (if priv then ''claim on L2 (credit private balance)''
      else ''claim on L2 (credit public balance)'')"
| "step_label priv burn_on_l2 =
     (if priv then ''burn token (private balance) on L2''
      else ''burn token (public balance) on L2'')"
| "step_label priv wait_for_proof = ''wait for block inclusion + proof generation''"
| "step_label priv finalize_withdrawal_on_l1 = ''finalize withdrawal on L1 portal''"

definition step_plan :: "direction \<Rightarrow> bool \<Rightarrow> bridge_step list" where
  "step_plan dir priv =
     map (\<lambda>sid. \<lparr>step_id = sid, label = step_label priv sid, status = pending,
                  description = None\<rparr>) (step_table dir)"

text \<open>
  Modelled from the spec: the sub-operation of each step (the chain call behind it, which returns
  a transaction hash or fails) and the block explorer's URL for a hash are outside the
  orchestration core.
\<close>

record 'w step_ops =
  perform :: "bridge_request \<Rightarrow> step_id \<Rightarrow> ('w, string) io"
  explorer :: "string \<Rightarrow> string"

record run_state =
  history :: "bridge_step list"
  emitted :: "bridge_step list"
  failure :: "(bridge_step \<times> exn) option"
  lastTxHash :: "string option"

text \<open>
  Modelled from the spec: the machine takes the steps in order.  A step goes from \<open>pending\<close> to
  \<open>loading\<close> when it starts, from \<open>loading\<close> to \<open>completed\<close> when its sub-operation succeeds and
  from \<open>loading\<close> to \<open>error\<close> when it fails; each transition is announced to the step sink.
  On the first error the machine halts: the steps after it are left as they are.
\<close>

fun run_steps ::
  "(step_id \<Rightarrow> ('w, string) io) \<Rightarrow> bridge_step list \<Rightarrow> string option \<Rightarrow> 'w \<Rightarrow> run_state \<times> 'w" where
  "run_steps ops [] tx w =
     (\<lparr>history = [], emitted = [], failure = None, lastTxHash = tx\<rparr>, w)"
| "run_steps ops (st # rest) tx w =
     (let started = st\<lparr>status := loading\<rparr> in
      case ops (step_id st) w of
        (Inl e, w') \<Rightarrow>
          (let failed = started\<lparr>status := error, description := Some (exn_message e)\<rparr>
           in (\<lparr>history = failed # rest, emitted = [started, failed],
                failure = Some (failed, e), lastTxHash = tx\<rparr>, w'))
      | (Inr hash, w') \<Rightarrow>
          (let finished = started\<lparr>status := completed\<rparr>
           in case run_steps ops rest (Some hash) w' of
                (r, w'') \<Rightarrow>
                  (r\<lparr>history := finished # history r,
                      emitted := started # finished # emitted r\<rparr>, w'')))"

declare run_steps.simps(2) [simp del]

text \<open>The world after the sub-operations of the given steps, and of no other, have run in order.\<close>

definition world_after :: "(step_id \<Rightarrow> ('w, string) io) \<Rightarrow> step_id list \<Rightarrow> 'w \<Rightarrow> 'w" where
  "world_after ops ids w = fold (\<lambda>sid w. snd (ops sid w)) ids w"

text \<open>
  Modelled from the spec: \<^verbatim>\<open>execute(request) -> BridgeResult\<close> (section 4.1) runs the plan of the
  direction and wraps the outcome (section 4.2): a step failure is reported in the result, not
  thrown; the settlement hash and its explorer URL are there when the last step completed.
\<close>

definition execute ::
  "'w step_ops \<Rightarrow> direction \<Rightarrow> bridge_request \<Rightarrow> 'w \<Rightarrow> (bridge_step list \<times> bridge_result) \<times> 'w" where
  "execute ops dir req w =
     (case run_steps (perform ops req) (step_plan dir (isPrivate req)) None w of
        (r, w') \<Rightarrow>
          ((emitted r,
            \<lparr>success = (failure r = None),
             res_direction = dir,
             res_amount = amount req,
             res_symbol = symbol (token req),
             steps = history r,
             message = (case failure r of
                          None \<Rightarrow> ''Bridge completed''
                        | Some (st, e) \<Rightarrow> ''Bridge failed at step: '' @ label st @ '': '' @ exn_message e),
             finalTxHash = (if failure r = None then lastTxHash r else None),
             explorerUrl = (if failure r = None then map_option (explorer ops) (lastTxHash r)
                            else None)\<rparr>), w'))"

text \<open>
  Modelled from the spec: the amount of a request is a non-negative decimal string (section 3).
\<close>

definition valid_amount :: "string \<Rightarrow> bool" where
  "valid_amount s =
     (let integer = takeWhile (\<lambda>c. c \<noteq> CHR ''.'') s;
          rest = dropWhile (\<lambda>c. c \<noteq> CHR ''.'') s
      in integer \<noteq> [] \<and> list_all is_digit integer
         \<and> (rest = [] \<or> (tl rest \<noteq> [] \<and> list_all is_digit (tl rest))))"

text \<open>
  Modelled from the spec: \<^verbatim>\<open>bridgeL1ToL2(request)\<close> and \<^verbatim>\<open>bridgeL2ToL1(request)\<close> (sections 4.2
  and 7) resolve the token once and fail fast when its symbol is not configured or the amount is
  malformed, before the step sequence starts; otherwise they run the machine of their direction.
\<close>

definition CompliantBridge_bridge ::
  "'w step_ops \<Rightarrow> network_config \<Rightarrow> direction \<Rightarrow> bridge_request
     \<Rightarrow> 'w \<Rightarrow> (bridge_step list \<times> (exn + bridge_result)) \<times> 'w" where
  "CompliantBridge_bridge ops nc dir req w =
     (case CompliantBridge_getToken nc (symbol (token req)) of
        None \<Rightarrow> (([], Inl (Error ''token not configured'')), w)
      | Some tok \<Rightarrow>
          if \<not> valid_amount (amount req) then (([], Inl (Error ''invalid amount'')), w)
          else (case execute ops dir (req\<lparr>token := tok\<rparr>) w of
                  ((ev, r), w') \<Rightarrow> ((ev, Inr r), w')))"



text \<open>The SDK with the orchestration core filled in from the spec.\<close>

definition with_core :: "'w step_ops \<Rightarrow> 'w sdk \<Rightarrow> 'w sdk" where
  "with_core ops sdk =
     sdk\<lparr>getToken := CompliantBridge_getToken,
         bridgeL1ToL2 := (\<lambda>nc. CompliantBridge_bridge ops nc L1ToL2),
         bridgeL2ToL1 := (\<lambda>nc. CompliantBridge_bridge ops nc L2ToL1)\<rparr>"

section \<open>Properties of traces\<close>

text \<open>The calls that are the bridge run itself: the bridge call and the steps it announces.\<close>

definition bridge_operation :: "call \<Rightarrow> bool" where
  "bridge_operation c =
     (case c of Call_bridgeL1ToL2 _ \<Rightarrow> True | Call_bridgeL2ToL1 _ \<Rightarrow> True | OnStep _ \<Rightarrow> True
      | _ \<Rightarrow> False)"

text \<open>
  The calls that reach a chain: those made on the L2 node, on the wallet created on that node,
  on the L1 client and on the bridge.  Deriving the L1 account from its key, constructing client
  objects and the \<^verbatim>\<open>onStep\<close> callback are local.
\<close>

definition chain_interaction :: "call \<Rightarrow> bool" where
  "chain_interaction c =
     (case c of
        Call_privateKeyToAccount _ \<Rightarrow> False
      | Call_createExtendedL1Client _ _ _ \<Rightarrow> False
      | Call_CachedAztecNode_initialize _ \<Rightarrow> False
      | Call_CachedAztecNode_getInstance \<Rightarrow> False
      | Call_getSponsoredFPCInstance \<Rightarrow> False
      | Call_new_SponsoredFeePaymentMethod _ \<Rightarrow> False
      | Call_new_TestWalletAdapter _ \<Rightarrow> False
      | Call_new_CompliantBridge _ \<Rightarrow> False
      | OnStep _ \<Rightarrow> False
      | _ \<Rightarrow> True)"

text \<open>
  The calls of the scripts before \<^verbatim>\<open>getAccountFromEnv\<close>: the L1 account and client, the node
  handle, waiting for the node to answer, and the wallet on it.
\<close>

definition connection_setup :: "call \<Rightarrow> bool" where
  "connection_setup c =
     (case c of
        Call_privateKeyToAccount _ \<Rightarrow> True
      | Call_createExtendedL1Client _ _ _ \<Rightarrow> True
      | Call_CachedAztecNode_initialize _ \<Rightarrow> True
      | Call_CachedAztecNode_getInstance \<Rightarrow> True
      | Call_waitForNode \<Rightarrow> True
      | Call_TestWallet_create _ \<Rightarrow> True
      | _ \<Rightarrow> False)"

text \<open>Whether every bridge call of a trace asks for the given privacy mode.\<close>

definition bridges_with_mode :: "bool \<Rightarrow> call \<Rightarrow> bool" where
  "bridges_with_mode priv c =
     (case c of Call_bridgeL1ToL2 req \<Rightarrow> isPrivate req = priv
      | Call_bridgeL2ToL1 req \<Rightarrow> isPrivate req = priv
      | _ \<Rightarrow> True)"

text \<open>
  \<open>emits P m\<close>: whatever \<open>m\<close> does, it only appends calls that satisfy \<open>P\<close> to the trace.
  \<open>always_throws m\<close>: \<open>m\<close> never returns normally.
\<close>

definition emits :: "(call \<Rightarrow> bool) \<Rightarrow> ('w, 'a) prog \<Rightarrow> bool" where
  "emits P m = (\<forall>t w. \<exists>u. fst (snd (m (t, w))) = t @ u \<and> list_all P u)"

definition always_throws :: "('w, 'a) prog \<Rightarrow> bool" where
  "always_throws m = (\<forall>s. isl (fst (m s)))"

definition is_hex :: "char \<Rightarrow> bool" where
  "is_hex c = (c \<in> set ''0123456789abcdefABCDEF'')"

section \<open>A sample configuration\<close>

text \<open>
  One token, three environments, a world that is a counter (the balance every read returns,
  raised by each completed step), and an SDK whose calls all succeed.
\<close>

definition ok :: "'a \<Rightarrow> ('w, 'a) io" where
  "ok a w = (Inr a, w)"

definition sample_token :: token_descriptor where
  "sample_token =
     \<lparr>symbol = ''RHT'', name = ''Raven House Token'',
      l1_tokenAddress = ''0xL1T'', l1_portalAddress = ''0xL1P'',
      l2_tokenAddress = ''0xL2T'', l2_bridgeAddress = ''0xL2B''\<rparr>"

definition sample_network :: network_config where
  "sample_network =
     \<lparr>nc_name = ''devnet'', l1RpcUrl = ''http://a,http://b'', nodeUrl = ''http://node'',
      skipSandbox = True, tokens = [sample_token], zk_verify = ''http://zk''\<rparr>"

definition sample_l1_client :: "nat l1_client" where
  "sample_l1_client =
     \<lparr>account_address = ''0xf39Fd6e51aad88F6F4ce6aB8827279cffFb92266'', readContract = (\<lambda>req w. (Inr (int w), w))\<rparr>"

definition sample_token_contract :: "nat token_contract" where
  "sample_token_contract =
     \<lparr>balance_of_public = (\<lambda>a w. (Started (Inr (int w)), w)),
      balance_of_private = (\<lambda>a w. (Started (Inr 0), w)),
      private_settles_first = False\<rparr>"

text \<open>A token contract whose public query rejects, and one where starting it throws.\<close>

definition failing_token_contract :: "nat token_contract" where
  "failing_token_contract =
     \<lparr>balance_of_public = (\<lambda>a w. (Started (Inl (Error ''public query failed'')), w)),
      balance_of_private = (\<lambda>a w. (Started (Inr 7), w)),
      private_settles_first = False\<rparr>"

definition throwing_token_contract :: "nat token_contract" where
  "throwing_token_contract =
     \<lparr>balance_of_public = (\<lambda>a w. (Threw (TypeError ''balance_of_public is not a function''), w)),
      balance_of_private = (\<lambda>a w. (Started (Inr 7), w)),
      private_settles_first = False\<rparr>"

definition sample_sdk :: "nat sdk" where
  "sample_sdk =
     \<lparr>networks = (\<lambda>e. if e = ''devnet'' \<or> e = ''sandbox'' \<or> e = ''testnet''
                       then Some sample_network else None),
      inherited_key = (\<lambda>e. e = ''constructor'' \<or> e = ''toString'' \<or> e = ''valueOf''
                            \<or> e = ''hasOwnProperty'' \<or> e = ''isPrototypeOf''
                            \<or> e = ''propertyIsEnumerable'' \<or> e = ''toLocaleString''
                            \<or> e = ''__proto__''),
      privateKeyToAccount = (\<lambda>k. ok ''0xf39Fd6e51aad88F6F4ce6aB8827279cffFb92266''),
      createExtendedL1Client = (\<lambda>urls acct ch. ok sample_l1_client),
      CachedAztecNode_initialize = (\<lambda>u. ok ()),
      CachedAztecNode_getInstance = ok (),
      waitForNode = ok (),
      TestWallet_create = (\<lambda>b. ok ()),
      Fr_fromString = (\<lambda>s. Inr (length s)),
      GrumpkinScalar_fromString = (\<lambda>s. Inr (length s)),
      createSchnorrAccount = (\<lambda>a b c. ok ''0xOWNER''),
      getAccounts = ok [],
      getAccount = (\<lambda>a. ok a),
      getSponsoredFPCInstance = ok ''0xFPC'',
      new_SponsoredFeePaymentMethod = (\<lambda>a. ok ()),
      registerContract = (\<lambda>a. ok ()),
      AztecAddress_fromString = (\<lambda>s. Inr s),
      getContract = (\<lambda>a. ok True),
      TokenContract_at = (\<lambda>a. ok sample_token_contract),
      new_TestWalletAdapter = (\<lambda>a. ok ()),
      new_CompliantBridge = (\<lambda>nc. ok ()),
      getToken = CompliantBridge_getToken,
      bridgeL1ToL2 = (\<lambda>nc req w. (([], Inl (Error ''unavailable'')), w)),
      bridgeL2ToL1 = (\<lambda>nc req w. (([], Inl (Error ''unavailable'')), w))\<rparr>"

definition sample_ops :: "nat step_ops" where
  "sample_ops =
     \<lparr>perform = (\<lambda>req sid w. (Inr ''0xTX'', Suc w)),
      explorer = (\<lambda>h. ''https://explorer/tx/'' @ h)\<rparr>"

definition timeout_ops :: "nat step_ops" where
  "timeout_ops =
     \<lparr>perform = (\<lambda>req sid w. if sid = wait_for_proof then (Inl (Error ''timed out''), w)
                              else (Inr ''0xTX'', Suc w)),
      explorer = (\<lambda>h. ''https://explorer/tx/'' @ h)\<rparr>"

definition sample_request :: bridge_request where
  "sample_request = \<lparr>token = sample_token, amount = ''1'', isPrivate = True\<rparr>"

definition sample_key :: string where
  "sample_key = ''ac0974bec39a17e36ba4a6b4d238ff944bacb478cbed5efcae784d7bf4f2ff80''"

definition sample_env :: env where
  "sample_env =
     map_of [(''AZTEC_ENV'', ''devnet''), (''ETHEREUM_WALLET_PRIVATE_KEY'', ''0x'' @ sample_key),
             (''ADMIN_SECRET_KEY'', ''0x01''), (''ADMIN_SIGNING_KEY'', ''0x02''),
             (''ADMIN_SALT'', ''0x03'')]"

text \<open>The same network with a token other than RHT, and the SDK on it.\<close>

definition other_network :: network_config where
  "other_network = sample_network\<lparr>tokens := [sample_token\<lparr>symbol := ''USDC''\<rparr>]\<rparr>"

definition other_sdk :: "nat sdk" where
  "other_sdk = sample_sdk\<lparr>networks := (\<lambda>e. if e = ''devnet'' then Some other_network else None)\<rparr>"

text \<open>
  What a private L2 to L1 run of one token unit looks like when waiting for the proof times out:
  the steps announced, and the result.
\<close>

definition burn_done :: bridge_step where
  "burn_done =
     \<lparr>step_id = burn_on_l2, label = ''burn token (private balance) on L2'',
      status = completed, description = None\<rparr>"

definition proof_failed :: bridge_step where
  "proof_failed =
     \<lparr>step_id = wait_for_proof, label = ''wait for block inclusion + proof generation'',
      status = error, description = Some ''timed out''\<rparr>"

definition finalize_pending :: bridge_step where
  "finalize_pending =
     \<lparr>step_id = finalize_withdrawal_on_l1, label = ''finalize withdrawal on L1 portal'',
      status = pending, description = None\<rparr>"

definition timeout_events :: "bridge_step list" where
  "timeout_events =
     [burn_done\<lparr>status := loading\<rparr>, burn_done,
      proof_failed\<lparr>status := loading, description := None\<rparr>, proof_failed]"

definition timeout_result :: bridge_result where
  "timeout_result =
     \<lparr>success = False, res_direction = L2ToL1, res_amount = ''1'', res_symbol = ''RHT'',
      steps = [burn_done, proof_failed, finalize_pending],
      message = ''Bridge failed at step: wait for block inclusion + proof generation: timed out'',
      finalTxHash = None, explorerUrl = None\<rparr>"

section \<open>Balance formatting\<close>

lemma digit_char_cases: "d < 10 \<Longrightarrow> digit_char d \<in> set ''0123456789''"
  unfolding digit_char_def by (rule nth_mem) simp

lemma digit_val_digit_char: "d < 10 \<Longrightarrow> digit_val (digit_char d) = d"
proof -
  assume "d < 10"
  then consider "d = 0" | "d = 1" | "d = 2" | "d = 3" | "d = 4" | "d = 5" | "d = 6" | "d = 7"
    | "d = 8" | "d = 9" by atomize_elim arith
  then show ?thesis
    by cases (simp_all add: digit_char_def digit_val_def)
qed

lemma nat_to_digits_set: "set (nat_to_digits n) \<subseteq> set ''0123456789''"
proof (induction n rule: nat_to_digits.induct)
  case (1 n)
  show ?case
  proof (cases "n < 10")
    case True
    then show ?thesis using digit_char_cases [of n] by (subst nat_to_digits.simps) simp
  next
    case False
    have "n mod 10 < 10" by simp
    then have "digit_char (n mod 10) \<in> set ''0123456789''" by (rule digit_char_cases)
    with False 1 show ?thesis by (subst nat_to_digits.simps) simp
  qed
qed

lemma nat_to_digits_not_Nil: "nat_to_digits n \<noteq> []"
  by (subst nat_to_digits.simps) simp

lemma digits_value_snoc: "digits_value (xs @ [c]) = 10 * digits_value xs + digit_val c"
  by (simp add: digits_value_def)

lemma digits_value_nat_to_digits: "digits_value (nat_to_digits n) = n"
proof (induction n rule: nat_to_digits.induct)
  case (1 n)
  show ?case
  proof (cases "n < 10")
    case True
    then show ?thesis
      by (subst nat_to_digits.simps) (simp add: digits_value_def digit_val_digit_char)
  next
    case False
    with 1 have "digits_value (nat_to_digits (n div 10)) = n div 10" by simp
    with False show ?thesis
      by (subst nat_to_digits.simps) (simp add: digits_value_snoc digit_val_digit_char)
  qed
qed

lemma length_nat_to_digits: "n < 10 ^ k \<Longrightarrow> 0 < k \<Longrightarrow> length (nat_to_digits n) \<le> k"
proof (induction n arbitrary: k rule: nat_to_digits.induct)
  case (1 n)
  show ?case
  proof (cases "n < 10")
    case True
    with 1(3) show ?thesis by (subst nat_to_digits.simps) simp
  next
    case False
    obtain j where k: "k = Suc j" using 1(3) by (cases k) auto
    have "j \<noteq> 0" using False 1(2) k by (cases j) auto
    moreover have "n div 10 < 10 ^ j" using 1(2) k by (simp add: less_mult_imp_div_less mult.commute)
    ultimately have "length (nat_to_digits (n div 10)) \<le> j" using 1(1) False by simp
    with False k show ?thesis by (subst nat_to_digits.simps) simp
  qed
qed

lemma digits_value_zeros_prefix: "digits_value (replicate k (CHR ''0'') @ s) = digits_value s"
proof -
  have "foldl (\<lambda>acc c. 10 * acc + digit_val c) 0 (replicate k (CHR ''0'')) = 0"
    by (induction k) (simp_all add: digit_val_def)
  then show ?thesis by (simp add: digits_value_def)
qed

lemma digits_value_zeros_suffix: "digits_value (s @ replicate k (CHR ''0'')) = digits_value s * 10 ^ k"
proof (induction k)
  case 0
  then show ?case by simp
next
  case (Suc k)
  have "s @ replicate (Suc k) (CHR ''0'') = (s @ replicate k (CHR ''0'')) @ [CHR ''0'']"
    by (simp add: replicate_append_same)
  then show ?case using Suc by (simp only: digits_value_snoc) (simp add: digit_val_def)
qed

lemma strip_trailing_zeros_decomp:
  "s = strip_trailing_zeros s @ replicate (length s - length (strip_trailing_zeros s)) (CHR ''0'')"
proof -
  let ?P = "\<lambda>c. c = CHR ''0''"
  have tw: "takeWhile ?P (rev s) = replicate (length (takeWhile ?P (rev s))) (CHR ''0'')"
    by (rule replicate_length_same [symmetric]) (auto dest: set_takeWhileD)
  have "rev s = takeWhile ?P (rev s) @ dropWhile ?P (rev s)" by simp
  then have "s = rev (dropWhile ?P (rev s)) @ rev (takeWhile ?P (rev s))"
    by (metis rev_append rev_rev_ident)
  moreover have "length (takeWhile ?P (rev s)) = length s - length (strip_trailing_zeros s)"
    using length_append [of "takeWhile ?P (rev s)" "dropWhile ?P (rev s)"]
    by (simp add: strip_trailing_zeros_def)
  ultimately show ?thesis using tw by (simp add: strip_trailing_zeros_def)
qed

lemma fraction_value:
  assumes "0 < d" and "r < 10 ^ d"
  defines "fdig \<equiv> strip_trailing_zeros (padStart d (CHR ''0'') (nat_to_digits r))"
  shows "digits_value fdig * 10 ^ (d - length fdig) = r" and "CHR ''.'' \<notin> set fdig"
proof -
  let ?pad = "padStart d (CHR ''0'') (nat_to_digits r)"
  have len: "length ?pad = d"
    using length_nat_to_digits [OF assms(2,1)] by (simp add: padStart_def)
  have val: "digits_value ?pad = r"
    by (simp add: padStart_def digits_value_zeros_prefix digits_value_nat_to_digits)
  have "?pad = fdig @ replicate (d - length fdig) (CHR ''0'')"
    using strip_trailing_zeros_decomp [of ?pad] len by (simp add: fdig_def)
  then have "digits_value ?pad = digits_value fdig * 10 ^ (d - length fdig)"
    using digits_value_zeros_suffix by metis
  with val show "digits_value fdig * 10 ^ (d - length fdig) = r" by simp
  have "set ?pad \<subseteq> set ''0123456789''"
    using nat_to_digits_set [of r] by (auto simp: padStart_def)
  moreover have "set fdig \<subseteq> set ?pad"
    by (auto simp: fdig_def strip_trailing_zeros_def dest: set_dropWhileD)
  ultimately show "CHR ''.'' \<notin> set fdig" by auto
qed

lemma nat_to_digits_no_dot: "CHR ''.'' \<notin> set (nat_to_digits n)"
  using nat_to_digits_set [of n] by auto

lemma nat_to_digits_hd: "nat_to_digits n = c # cs \<Longrightarrow> c \<noteq> CHR ''-''"
  using nat_to_digits_set [of n] by auto

lemma read_unsigned:
  assumes "CHR ''.'' \<notin> set ip" and "fp \<noteq> [] \<Longrightarrow> rest = CHR ''.'' # fp" and "fp = [] \<Longrightarrow> rest = []"
  shows "takeWhile (\<lambda>c. c \<noteq> CHR ''.'') (ip @ rest) = ip"
    and "drop 1 (dropWhile (\<lambda>c. c \<noteq> CHR ''.'') (ip @ rest)) = fp"
proof -
  have all: "\<forall>c\<in>set ip. c \<noteq> CHR ''.''" using assms(1) by auto
  show "takeWhile (\<lambda>c. c \<noteq> CHR ''.'') (ip @ rest) = ip"
    using all assms(2,3) by (cases "fp = []") (simp_all add: takeWhile_append2)
  have "dropWhile (\<lambda>c. c \<noteq> CHR ''.'') (ip @ rest) = dropWhile (\<lambda>c. c \<noteq> CHR ''.'') rest"
    using all by (intro dropWhile_append2) simp
  also have "\<dots> = rest" using assms(2,3) by (cases "fp = []") simp_all
  finally have eq: "dropWhile (\<lambda>c. c \<noteq> CHR ''.'') (ip @ rest) = rest" .
  show "drop 1 (dropWhile (\<lambda>c. c \<noteq> CHR ''.'') (ip @ rest)) = fp"
    unfolding eq using assms(2,3) by (cases "fp = []") simp_all
qed

lemma unsigned_value:
  fixes a d :: nat
  defines "ip \<equiv> nat_to_digits (a div 10 ^ d)"
  defines "fp \<equiv> strip_trailing_zeros (padStart d (CHR ''0'') (nat_to_digits (a mod 10 ^ d)))"
  shows "digits_value ip * 10 ^ d + digits_value fp * 10 ^ (d - length fp) = a"
    and "CHR ''.'' \<notin> set fp"
proof -
  have ipv: "digits_value ip = a div 10 ^ d" by (simp add: ip_def digits_value_nat_to_digits)
  show "digits_value ip * 10 ^ d + digits_value fp * 10 ^ (d - length fp) = a"
  proof (cases "d = 0")
    case True
    have "nat_to_digits 0 = ''0''" by (subst nat_to_digits.simps) (simp add: digit_char_def)
    then have "fp = []" using True by (simp add: fp_def padStart_def strip_trailing_zeros_def)
    then show ?thesis using True ipv by (simp add: digits_value_def)
  next
    case False
    then have "digits_value fp * 10 ^ (d - length fp) = a mod 10 ^ d"
      unfolding fp_def by (intro fraction_value(1)) simp_all
    then show ?thesis using ipv by (simp add: div_mult_mod_eq)
  qed
  show "CHR ''.'' \<notin> set fp"
  proof (cases "d = 0")
    case True
    have "nat_to_digits 0 = ''0''" by (subst nat_to_digits.simps) (simp add: digit_char_def)
    then show ?thesis using True by (simp add: fp_def padStart_def strip_trailing_zeros_def)
  next
    case False
    then show ?thesis unfolding fp_def by (intro fraction_value(2)) simp_all
  qed
qed
lemma all_digits_subset: "set s \<subseteq> set ''0123456789'' \<Longrightarrow> list_all is_digit s"
  unfolding list_all_iff is_digit_def by blast

lemma nat_to_digits_all_digits: "list_all is_digit (nat_to_digits n)"
  by (rule all_digits_subset [OF nat_to_digits_set])

lemma nat_to_digits_leading:
  "0 < n \<Longrightarrow> hd (nat_to_digits n) \<noteq> CHR ''0''"
proof (induction n rule: nat_to_digits.induct)
  case (1 n)
  show ?case
  proof (cases "n < 10")
    case True
    then consider "n = 1" | "n = 2" | "n = 3" | "n = 4" | "n = 5" | "n = 6" | "n = 7"
      | "n = 8" | "n = 9" using 1(2) by atomize_elim arith
    then show ?thesis
      by cases (simp_all add: nat_to_digits.simps digit_char_def)
  next
    case False
    then have "0 < n div 10" by simp
    then have "hd (nat_to_digits (n div 10)) \<noteq> CHR ''0''" using 1(1) False by simp
    then show ?thesis
      using False nat_to_digits_not_Nil [of "n div 10"]
      by (subst nat_to_digits.simps) simp
  qed
qed

lemma nat_to_digits_canonical:
  "nat_to_digits n = ''0'' \<or> take 1 (nat_to_digits n) \<noteq> ''0''"
proof (cases "n = 0")
  case True
  then show ?thesis by (simp add: nat_to_digits.simps digit_char_def)
next
  case False
  then have "hd (nat_to_digits n) \<noteq> CHR ''0''" by (simp add: nat_to_digits_leading)
  then show ?thesis
    using nat_to_digits_not_Nil [of n] by (cases "nat_to_digits n") auto
qed

lemma strip_trailing_zeros_last:
  "strip_trailing_zeros s \<noteq> [] \<Longrightarrow> last (strip_trailing_zeros s) \<noteq> CHR ''0''"
proof -
  assume ne: "strip_trailing_zeros s \<noteq> []"
  then have d: "dropWhile (\<lambda>c. c = CHR ''0'') (rev s) \<noteq> []"
    by (simp add: strip_trailing_zeros_def)
  then have "hd (dropWhile (\<lambda>c. c = CHR ''0'') (rev s)) \<noteq> CHR ''0''"
    using hd_dropWhile [of "\<lambda>c. c = CHR ''0''" "rev s"] by blast
  then show ?thesis using d by (simp add: strip_trailing_zeros_def last_rev)
qed

lemma strip_trailing_zeros_subset: "set (strip_trailing_zeros s) \<subseteq> set s"
  by (auto simp: strip_trailing_zeros_def dest: set_dropWhileD)

lemma strip_trailing_zeros_length: "length (strip_trailing_zeros s) \<le> length s"
  by (simp add: strip_trailing_zeros_def length_dropWhile_le [of _ "rev s", simplified])

lemma fraction_digits:
  fixes a d :: nat
  defines "fp \<equiv> strip_trailing_zeros (padStart d (CHR ''0'') (nat_to_digits (a mod 10 ^ d)))"
  shows "list_all is_digit fp" and "0 < d \<Longrightarrow> length fp \<le> d"
proof -
  let ?pad = "padStart d (CHR ''0'') (nat_to_digits (a mod 10 ^ d))"
  have "set ?pad \<subseteq> set ''0123456789''"
    using nat_to_digits_set [of "a mod 10 ^ d"] by (auto simp: padStart_def)
  then have "set fp \<subseteq> set ''0123456789''"
    using strip_trailing_zeros_subset [of ?pad] unfolding fp_def by blast
  then show "list_all is_digit fp" by (rule all_digits_subset)
  assume d: "0 < d"
  have "a mod 10 ^ d < 10 ^ d" by simp
  then have "length (nat_to_digits (a mod 10 ^ d)) \<le> d" using d by (rule length_nat_to_digits)
  then have "length ?pad = d" by (simp add: padStart_def)
  then show "length fp \<le> d"
    using strip_trailing_zeros_length [of ?pad] unfolding fp_def by simp
qed

lemma magnitude_value:
  fixes a d :: nat
  defines "ip \<equiv> nat_to_digits (a div 10 ^ d)"
  defines "fp \<equiv> strip_trailing_zeros (padStart d (CHR ''0'') (nat_to_digits (a mod 10 ^ d)))"
  shows "(of_nat (digits_value ip) + of_nat (digits_value fp) / 10 ^ length fp :: rat)
           = of_nat a / 10 ^ d"
proof -
  have nat_eq: "digits_value ip * 10 ^ d + digits_value fp * 10 ^ (d - length fp) = a"
    unfolding ip_def fp_def by (rule unsigned_value(1))
  have len: "length fp \<le> d"
  proof (cases "d = 0")
    case True
    have "nat_to_digits 0 = ''0''" by (subst nat_to_digits.simps) (simp add: digit_char_def)
    then show ?thesis using True by (simp add: fp_def padStart_def strip_trailing_zeros_def)
  next
    case False
    then show ?thesis unfolding fp_def by (intro fraction_digits(2)) simp
  qed
  have pw: "(10::rat) ^ d = 10 ^ (d - length fp) * 10 ^ length fp"
    using len by (simp add: power_add [symmetric])
  have "(of_nat a :: rat)
          = of_nat (digits_value ip) * 10 ^ d + of_nat (digits_value fp) * 10 ^ (d - length fp)"
    by (subst nat_eq [symmetric]) simp
  then have "(of_nat a :: rat) / 10 ^ d
          = of_nat (digits_value ip) + of_nat (digits_value fp) * 10 ^ (d - length fp) / 10 ^ d"
    by (simp add: add_divide_distrib)
  also have "of_nat (digits_value fp) * 10 ^ (d - length fp) / (10::rat) ^ d
          = of_nat (digits_value fp) / 10 ^ length fp"
    by (subst pw) simp
  finally show ?thesis by simp
qed


lemma decimal_value_formatUnits: "decimal_value (formatUnits v d) = Some (of_int v / 10 ^ d)"
proof -
  define a where "a = nat \<bar>v\<bar>"
  define ip where "ip = nat_to_digits (a div 10 ^ d)"
  define fp where "fp = strip_trailing_zeros (padStart d (CHR ''0'') (nat_to_digits (a mod 10 ^ d)))"
  define rest where "rest = (if fp = [] then [] else CHR ''.'' # fp)"
  define mag :: rat where "mag = of_nat (digits_value ip) + of_nat (digits_value fp) / 10 ^ length fp"
  have fu: "formatUnits v d = (if v < 0 then ''-'' else []) @ ip @ rest"
    by (simp add: formatUnits_def Let_def a_def ip_def fp_def rest_def)
  have mag: "mag = of_nat a / 10 ^ d"
    unfolding mag_def ip_def fp_def by (rule magnitude_value)
  have nodot: "CHR ''.'' \<notin> set ip" by (simp add: ip_def nat_to_digits_no_dot)
  have tw: "takeWhile (\<lambda>c. c \<noteq> CHR ''.'') (ip @ rest) = ip"
    by (rule read_unsigned(1) [OF nodot, of fp]) (simp_all add: rest_def)
  have dw: "dropWhile (\<lambda>c. c \<noteq> CHR ''.'') (ip @ rest) = rest"
  proof -
    have "dropWhile (\<lambda>c. c \<noteq> CHR ''.'') (ip @ rest) = dropWhile (\<lambda>c. c \<noteq> CHR ''.'') rest"
      using nodot by (intro dropWhile_append2) auto
    then show ?thesis by (simp add: rest_def)
  qed
  have fr: "drop 1 rest = fp" by (simp add: rest_def)
  obtain c cs where ipc: "ip = c # cs" using nat_to_digits_not_Nil [of "a div 10 ^ d"]
    by (cases ip) (auto simp: ip_def)
  have cm: "c \<noteq> CHR ''-''" using ipc nat_to_digits_hd unfolding ip_def by blast
  have wf_ip: "ip \<noteq> []" "list_all is_digit ip" "ip = ''0'' \<or> take 1 ip \<noteq> ''0''"
    using ipc nat_to_digits_all_digits [of "a div 10 ^ d"] nat_to_digits_canonical [of "a div 10 ^ d"]
    by (simp_all add: ip_def)
  have wf_fp: "rest = [] \<or> (fp \<noteq> [] \<and> list_all is_digit fp \<and> last fp \<noteq> CHR ''0'')"
  proof (cases "fp = []")
    case True
    then show ?thesis by (simp add: rest_def)
  next
    case False
    then show ?thesis
      using fraction_digits(1) [of d a] strip_trailing_zeros_last [of "padStart d (CHR ''0'') (nat_to_digits (a mod 10 ^ d))"]
      by (simp add: fp_def)
  qed
  let ?ok = "ip \<noteq> [] \<and> list_all is_digit ip \<and> (ip = ''0'' \<or> take 1 ip \<noteq> ''0'')
             \<and> (rest = [] \<or> (fp \<noteq> [] \<and> list_all is_digit fp \<and> last fp \<noteq> CHR ''0''))"
  have ok: ?ok using wf_ip wf_fp by blast
  show ?thesis
  proof (cases "v < 0")
    case True
    then have "0 < a" by (simp add: a_def)
    then have nz: "mag \<noteq> 0" by (simp add: mag)
    have t1: "take 1 (''-'' @ ip @ rest) = ''-''" and d1: "drop 1 (''-'' @ ip @ rest) = ip @ rest"
      by simp_all
    have "decimal_value (''-'' @ ip @ rest)
          = (if ip \<noteq> [] \<and> list_all is_digit ip \<and> (ip = ''0'' \<or> take 1 ip \<noteq> ''0'')
                \<and> (rest = [] \<or> (fp \<noteq> [] \<and> list_all is_digit fp \<and> last fp \<noteq> CHR ''0''))
                \<and> (True \<longrightarrow> mag \<noteq> 0)
             then Some (if True then - mag else mag) else None)"
      unfolding decimal_value_def Let_def mag_def
      by (simp only: t1 d1 tw dw fr if_True simp_thms)
    also have "\<dots> = Some (- mag)" using ok nz by simp
    finally show ?thesis using True by (simp add: fu mag a_def)
  next
    case False
    have nn: "(take 1 (ip @ rest) = ''-'') = False" using ipc cm by simp
    have "decimal_value (ip @ rest)
          = (if ip \<noteq> [] \<and> list_all is_digit ip \<and> (ip = ''0'' \<or> take 1 ip \<noteq> ''0'')
                \<and> (rest = [] \<or> (fp \<noteq> [] \<and> list_all is_digit fp \<and> last fp \<noteq> CHR ''0''))
                \<and> (False \<longrightarrow> mag \<noteq> 0)
             then Some (if False then - mag else mag) else None)"
      unfolding decimal_value_def Let_def mag_def
      by (simp only: nn tw dw fr if_False simp_thms)
    also have "\<dots> = Some mag" using ok by simp
    finally show ?thesis using False by (simp add: fu mag a_def)
  qed
qed

lemma decimal_value_examples:
  "decimal_value ''1.5'' = Some (3 / 2)" "decimal_value ''-0.25'' = Some (- 1 / 4)"
  "decimal_value ''.5'' = None" "decimal_value ''1.50'' = None" "decimal_value ''01'' = None"
  "decimal_value ''-0'' = None" "decimal_value ''1.'' = None" "decimal_value ''1x'' = None"
  by (simp_all add: decimal_value_def Let_def is_digit_def digits_value_def digit_val_def)

text \<open>
  C5: \<open>formatBalance\<close> renders a smallest-unit amount by exact fixed-point scaling with the
  token's decimal count, 18 when the argument is left out: \<open>1500000000000000000\<close> at 18
  decimals is \<^verbatim>\<open>1.5\<close>, and for every amount and every decimal count the rendered string is a
  canonical decimal numeral whose value is the amount divided by ten to the decimal count,
  exactly, as a rational number.
\<close>

theorem formatBalance_exact:
  "formatBalance 1500000000000000000 (Some 18) = ''1.5''
   \<and> formatBalance b None = formatBalance b (Some 18)
   \<and> decimal_value (formatBalance b (Some d)) = Some (of_int b / 10 ^ d)
   \<and> decimal_value (formatBalance b None) = Some (of_int b / 10 ^ 18)"
proof -
  have q: "nat \<bar>1500000000000000000::int\<bar> div 10 ^ 18 = 1" by simp
  have r: "nat \<bar>1500000000000000000::int\<bar> mod 10 ^ 18 = 500000000000000000" by simp
  have dq: "nat_to_digits 1 = ''1''" by (simp add: nat_to_digits.simps digit_char_def)
  have dr: "nat_to_digits 500000000000000000 = ''500000000000000000''"
    by (simp add: nat_to_digits.simps digit_char_def)
  have fr: "strip_trailing_zeros (padStart 18 (CHR ''0'') ''500000000000000000'') = ''5''"
    by (simp add: padStart_def strip_trailing_zeros_def)
  have ex: "formatBalance 1500000000000000000 (Some 18) = ''1.5''"
    unfolding formatBalance_def formatUnits_def Let_def option.case q r dq dr fr by simp
  show ?thesis
    using ex by (simp add: formatBalance_def decimal_value_formatUnits)
qed

theorem formatBalance_exact_witness:
  "formatBalance 1500000000000000000 (Some 18) = ''1.5''
   \<and> decimal_value ''1.5'' = Some (3 / 2)
   \<and> decimal_value (formatBalance (- 1234) (Some 3)) = Some (- 617 / 500)
   \<and> decimal_value (formatBalance 2000000000000000000 None) = Some 2"
proof -
  have a: "formatBalance 1500000000000000000 (Some 18) = ''1.5''"
    "decimal_value (formatBalance 1500000000000000000 (Some 18))
       = Some (of_int 1500000000000000000 / 10 ^ 18)"
    using formatBalance_exact [of 1500000000000000000 18] by blast+
  have b: "decimal_value (formatBalance (- 1234) (Some 3)) = Some (of_int (- 1234) / 10 ^ 3)"
    using formatBalance_exact [of "- 1234" 3] by blast
  have c: "decimal_value (formatBalance 2000000000000000000 None)
            = Some (of_int 2000000000000000000 / 10 ^ 18)"
    using formatBalance_exact [of 2000000000000000000 0] by blast
  have "decimal_value ''1.5'' = Some (3 / 2)" using a by simp
  then show ?thesis using a(1) b c by simp
qed

section \<open>Balance reads\<close>

lemmas read_defs = getL2TokenBalances_def bind_p_def promise_all2_def start_p_def return_p_def

text \<open>
  C4, as amended: \<open>getL2TokenBalances\<close> starts the public query and then the private query
  before it awaits either, unless starting the public query throws: then the private query is
  never issued and the read fails with that exception.  Once the public query has started, both
  calls are made, in this order, whatever the first one answers.  The read returns the pair of
  balances exactly when both queries succeed; in every other case the whole read fails, with the
  error of one of the two queries, and no one-sided result is returned.
\<close>

theorem getL2TokenBalances_both_or_fail:
  assumes "balance_of_public tc owner w = (rp, w1)"
      and "balance_of_private tc owner w1 = (rq, w2)"
  shows "(rp = Threw e \<longrightarrow>
            getL2TokenBalances tc owner (t, w) = (Inl e, (t @ [Call_balance_of_public owner], w1)))
       \<and> (rp = Started x \<longrightarrow>
            snd (getL2TokenBalances tc owner (t, w))
              = (t @ [Call_balance_of_public owner, Call_balance_of_private owner], w2))
       \<and> (fst (getL2TokenBalances tc owner (t, w)) = Inr \<lparr>l2_public = a, l2_private = b\<rparr>
            \<longleftrightarrow> rp = Started (Inr a) \<and> rq = Started (Inr b))
       \<and> (isl (fst (getL2TokenBalances tc owner (t, w)))
            \<longleftrightarrow> (\<nexists>a b. rp = Started (Inr a) \<and> rq = Started (Inr b)))
       \<and> (fst (getL2TokenBalances tc owner (t, w)) = Inl e \<longrightarrow>
            rp = Threw e \<or> rp = Started (Inl e) \<or> rq = Threw e \<or> rq = Started (Inl e))"
proof (cases rp)
  case (Threw e1)
  then show ?thesis using assms by (simp add: read_defs)
next
  case (Started ra)
  show ?thesis
  proof (cases rq)
    case (Threw e2)
    then show ?thesis using assms Started by (simp add: read_defs)
  next
    case sq: (Started rb)
    show ?thesis using assms Started sq by (cases ra; cases rb) (auto simp: read_defs)
  qed
qed

theorem getL2TokenBalances_both_or_fail_witness:
  "balance_of_public throwing_token_contract ''0xOWNER'' 5
     = (Threw (TypeError ''balance_of_public is not a function''), 5)
   \<and> getL2TokenBalances throwing_token_contract ''0xOWNER'' ([], 5)
       = (Inl (TypeError ''balance_of_public is not a function''),
          ([Call_balance_of_public ''0xOWNER''], 5))
   \<and> balance_of_public failing_token_contract ''0xOWNER'' 5
       = (Started (Inl (Error ''public query failed'')), 5)
   \<and> balance_of_private failing_token_contract ''0xOWNER'' 5 = (Started (Inr 7), 5)
   \<and> snd (getL2TokenBalances failing_token_contract ''0xOWNER'' ([], 5))
       = ([Call_balance_of_public ''0xOWNER'', Call_balance_of_private ''0xOWNER''], 5)
   \<and> isl (fst (getL2TokenBalances failing_token_contract ''0xOWNER'' ([], 5)))
   \<and> balance_of_public sample_token_contract ''0xOWNER'' 5 = (Started (Inr 5), 5)
   \<and> balance_of_private sample_token_contract ''0xOWNER'' 5 = (Started (Inr 0), 5)
   \<and> fst (getL2TokenBalances sample_token_contract ''0xOWNER'' ([], 5))
       = Inr \<lparr>l2_public = 5, l2_private = 0\<rparr>"
proof -
  have th: "balance_of_public throwing_token_contract ''0xOWNER'' 5
             = (Threw (TypeError ''balance_of_public is not a function''), 5)"
           "balance_of_private throwing_token_contract ''0xOWNER'' 5 = (Started (Inr 7), 5)"
    by (simp_all add: throwing_token_contract_def)
  have f: "balance_of_public failing_token_contract ''0xOWNER'' 5
             = (Started (Inl (Error ''public query failed'')), 5)"
          "balance_of_private failing_token_contract ''0xOWNER'' 5 = (Started (Inr 7), 5)"
    by (simp_all add: failing_token_contract_def)
  have s: "balance_of_public sample_token_contract ''0xOWNER'' 5 = (Started (Inr 5), 5)"
          "balance_of_private sample_token_contract ''0xOWNER'' 5 = (Started (Inr 0), 5)"
    by (simp_all add: sample_token_contract_def)
  show ?thesis
    using th f s
      getL2TokenBalances_both_or_fail [OF th, of "TypeError ''balance_of_public is not a function''" "[]"]
      getL2TokenBalances_both_or_fail [OF f, of _ "[]" "Inl (Error ''public query failed'')"]
      getL2TokenBalances_both_or_fail [OF s, of _ "[]" "Inr 5" 5 0]
    by simp
qed

text \<open>
  The claim as stated fails when the first query cannot be started: on a token contract whose
  \<^verbatim>\<open>balance_of_public\<close> throws when called, the private query is not issued at all.
\<close>

theorem private_query_not_issued_after_throw:
  "getL2TokenBalances throwing_token_contract ''0xOWNER'' ([], 5)
     = (Inl (TypeError ''balance_of_public is not a function''),
        ([Call_balance_of_public ''0xOWNER''], 5))
   \<and> Call_balance_of_private ''0xOWNER''
       \<notin> set (fst (snd (getL2TokenBalances throwing_token_contract ''0xOWNER'' ([], 5))))"
  by (simp add: read_defs throwing_token_contract_def)

text \<open>
  C8: the balance readers are pure and idempotent.  When the client's reads are read-only (a
  \<^verbatim>\<open>view\<close> call on L1, a simulation on L2: they leave the world as it is), a read leaves the
  world unchanged, and a second read with the same owner and token, made right after the first,
  returns the same result: the same amount on L1, the same pair of public and private balances on
  L2, or the same error.
\<close>

theorem balance_reads_idempotent:
  assumes "\<And>req w. snd (readContract c req w) = w"
      and "\<And>a w. snd (balance_of_public tc a w) = w"
      and "\<And>a w. snd (balance_of_private tc a w) = w"
  shows "snd (snd (getL1TokenBalance c tok wallet (t, w))) = w
       \<and> fst (getL1TokenBalance c tok wallet (snd (getL1TokenBalance c tok wallet (t, w))))
           = fst (getL1TokenBalance c tok wallet (t, w))
       \<and> snd (snd (getL2TokenBalances tc owner (t, w))) = w
       \<and> fst (getL2TokenBalances tc owner (snd (getL2TokenBalances tc owner (t, w))))
           = fst (getL2TokenBalances tc owner (t, w))"
proof -
  have l1: "getL1TokenBalance c tok wallet (t', w)
            = (fst (readContract c \<lparr>rr_address = tok, functionName = ''balanceOf'',
                                     args = [wallet]\<rparr> w),
               (t' @ [Call_readContract \<lparr>rr_address = tok, functionName = ''balanceOf'',
                                          args = [wallet]\<rparr>], w))" for t'
    using assms(1) [of "\<lparr>rr_address = tok, functionName = ''balanceOf'', args = [wallet]\<rparr>" w]
    by (auto simp: getL1TokenBalance_def Let_def call_p_def split: prod.splits)
  obtain rp where rp: "balance_of_public tc owner w = (rp, w)"
    using assms(2) [of owner w] by (cases "balance_of_public tc owner w") simp
  obtain rq where rq: "balance_of_private tc owner w = (rq, w)"
    using assms(3) [of owner w] by (cases "balance_of_private tc owner w") simp
  have l2: "\<exists>r. \<forall>t'. \<exists>u. getL2TokenBalances tc owner (t', w) = (r, (u, w))"
  proof (cases rp)
    case (Threw e)
    then show ?thesis using rp by (simp add: read_defs)
  next
    case (Started ra)
    show ?thesis
    proof (cases rq)
      case (Threw e)
      then show ?thesis using rp rq Started by (simp add: read_defs)
    next
      case sq: (Started rb)
      show ?thesis using rp rq Started sq by (cases ra; cases rb) (simp_all add: read_defs)
    qed
  qed
  then obtain r where r: "\<And>t'. \<exists>u. getL2TokenBalances tc owner (t', w) = (r, (u, w))" by blast
  obtain u where u: "getL2TokenBalances tc owner (t, w) = (r, (u, w))" using r by blast
  obtain u' where u': "getL2TokenBalances tc owner (u, w) = (r, (u', w))" using r by blast
  show ?thesis using l1 u u' by simp
qed

theorem balance_reads_idempotent_witness:
  "snd (readContract sample_l1_client \<lparr>rr_address = ''0xL1T'', functionName = ''balanceOf'',
                                        args = [''0xA'']\<rparr> 5) = 5
   \<and> snd (balance_of_public sample_token_contract ''0xOWNER'' 5) = 5
   \<and> snd (balance_of_private sample_token_contract ''0xOWNER'' 5) = 5
   \<and> snd (snd (getL1TokenBalance sample_l1_client ''0xL1T'' ''0xA'' ([], 5))) = 5
   \<and> fst (getL1TokenBalance sample_l1_client ''0xL1T'' ''0xA''
        (snd (getL1TokenBalance sample_l1_client ''0xL1T'' ''0xA'' ([], 5))))
      = fst (getL1TokenBalance sample_l1_client ''0xL1T'' ''0xA'' ([], 5))
   \<and> snd (snd (getL2TokenBalances sample_token_contract ''0xOWNER'' ([], 5))) = 5
   \<and> fst (getL2TokenBalances sample_token_contract ''0xOWNER''
        (snd (getL2TokenBalances sample_token_contract ''0xOWNER'' ([], 5))))
      = fst (getL2TokenBalances sample_token_contract ''0xOWNER'' ([], 5))
   \<and> fst (getL1TokenBalance sample_l1_client ''0xL1T'' ''0xA'' ([], 5)) = Inr 5
   \<and> fst (getL2TokenBalances sample_token_contract ''0xOWNER'' ([], 5))
      = Inr \<lparr>l2_public = 5, l2_private = 0\<rparr>"
proof -
  have a: "\<And>req w. snd (readContract sample_l1_client req w) = w"
    by (simp add: sample_l1_client_def)
  have b: "\<And>a w. snd (balance_of_public sample_token_contract a w) = w"
    by (simp add: sample_token_contract_def)
  have c: "\<And>a w. snd (balance_of_private sample_token_contract a w) = w"
    by (simp add: sample_token_contract_def)
  have v: "fst (getL1TokenBalance sample_l1_client ''0xL1T'' ''0xA'' ([], 5)) = Inr 5"
    "fst (getL2TokenBalances sample_token_contract ''0xOWNER'' ([], 5))
      = Inr \<lparr>l2_public = 5, l2_private = 0\<rparr>"
    by (simp_all add: getL1TokenBalance_def Let_def call_p_def read_defs
          sample_l1_client_def sample_token_contract_def)
  show ?thesis
    using a b c v
      balance_reads_idempotent [OF a b c, of "''0xL1T''" "''0xA''" "[]" 5 "''0xOWNER''"]
    by simp
qed

section \<open>Reasoning about traces\<close>

lemma bind_p_throw: "bind_p (throw_p e) f = throw_p e"
  by (rule ext) (simp add: bind_p_def throw_p_def)

lemma bind_p_return: "bind_p (return_p a) f = f a"
  by (rule ext) (simp add: bind_p_def return_p_def)

lemma emits_return: "emits P (return_p a)"
  by (simp add: emits_def return_p_def)

lemma emits_throw: "emits P (throw_p e)"
  by (simp add: emits_def throw_p_def)

lemma emits_lift: "emits P (lift_p r)"
  by (cases r) (simp_all add: lift_p_def emits_return emits_throw)

lemma emits_call: "P c \<Longrightarrow> emits P (call_p c f)"
  by (simp add: emits_def call_p_def split: prod.splits)

lemma emits_bind:
  assumes m: "emits P m" and f: "\<And>a. emits P (f a)"
  shows "emits P (bind_p m f)"
  unfolding emits_def
proof (intro allI)
  fix t w
  obtain r t1 w1 where ms: "m (t, w) = (r, (t1, w1))" by (metis prod_cases3)
  obtain u where u: "t1 = t @ u" "list_all P u"
    using m ms unfolding emits_def by (metis fst_conv snd_conv)
  show "\<exists>u. fst (snd (bind_p m f (t, w))) = t @ u \<and> list_all P u"
  proof (cases r)
    case (Inl e)
    then show ?thesis using ms u by (simp add: bind_p_def)
  next
    case (Inr a)
    obtain v where v: "fst (snd (f a (t1, w1))) = t1 @ v" "list_all P v"
      using f [of a] unfolding emits_def by blast
    then have "fst (snd (bind_p m f (t, w))) = t @ (u @ v) \<and> list_all P (u @ v)"
      using Inr ms u by (simp add: bind_p_def)
    then show ?thesis by blast
  qed
qed

lemma emits_try_catch:
  assumes m: "emits P m" and h: "\<And>e. emits P (h e)"
  shows "emits P (try_catch m h)"
  unfolding emits_def
proof (intro allI)
  fix t w
  obtain r t1 w1 where ms: "m (t, w) = (r, (t1, w1))" by (metis prod_cases3)
  obtain u where u: "t1 = t @ u" "list_all P u"
    using m ms unfolding emits_def by (metis fst_conv snd_conv)
  show "\<exists>u. fst (snd (try_catch m h (t, w))) = t @ u \<and> list_all P u"
  proof (cases r)
    case (Inr a)
    then show ?thesis using ms u by (simp add: try_catch_def)
  next
    case (Inl e)
    obtain v where v: "fst (snd (h e (t1, w1))) = t1 @ v" "list_all P v"
      using h [of e] unfolding emits_def by blast
    then have "fst (snd (try_catch m h (t, w))) = t @ (u @ v) \<and> list_all P (u @ v)"
      using Inl ms u by (simp add: try_catch_def)
    then show ?thesis by blast
  qed
qed

lemma emits_trace:
  assumes "emits P m" and "m (t, w) = (r, (t', w'))" and "list_all P t"
  shows "list_all P t'"
proof -
  obtain u where "fst (snd (m (t, w))) = t @ u" "list_all P u"
    using assms(1) unfolding emits_def by blast
  then show ?thesis using assms(2,3) by simp
qed

lemma always_throws_throw: "always_throws (throw_p e)"
  by (simp add: always_throws_def throw_p_def)

lemma always_throws_bind1:
  assumes "always_throws m"
  shows "always_throws (bind_p m f)"
  unfolding always_throws_def
proof
  fix s
  obtain r s' where ms: "m s = (r, s')" by (cases "m s")
  then have "isl r" using assms unfolding always_throws_def by (metis fst_conv)
  then show "isl (fst (bind_p m f s))" using ms by (cases r) (simp_all add: bind_p_def)
qed

lemma always_throws_bind2: "(\<And>a. always_throws (f a)) \<Longrightarrow> always_throws (bind_p m f)"
  unfolding always_throws_def bind_p_def
  by (auto split: prod.splits sum.splits)

lemma emits_case_prod: "(\<And>a b. emits P (f a b)) \<Longrightarrow> emits P (case x of (a, b) \<Rightarrow> f a b)"
  by (cases x) simp

lemma emits_case_prod3:
  "(\<And>a b c. emits P (f a b c)) \<Longrightarrow> emits P (case x of (a, b, c) \<Rightarrow> f a b c)"
  by (cases x) simp

lemmas emits_rules =
  emits_bind emits_return emits_throw emits_lift emits_try_catch
  emits_case_prod emits_case_prod3

lemma emits_getL1TokenBalance:
  assumes "\<And>c. \<not> bridge_operation c \<Longrightarrow> P c"
  shows "emits P (getL1TokenBalance c t a)"
  unfolding getL1TokenBalance_def Let_def
  by (intro emits_call assms) (simp add: bridge_operation_def)

lemma emits_getL2TokenBalances:
  assumes "\<And>c. \<not> bridge_operation c \<Longrightarrow> P c"
  shows "emits P (getL2TokenBalances tc a)"
proof -
  have p: "P (Call_balance_of_public a)" "P (Call_balance_of_private a)"
    by (rule assms, simp add: bridge_operation_def)+
  have "\<exists>u. fst (snd (getL2TokenBalances tc a (t, w))) = t @ u \<and> list_all P u" for t w
  proof -
    obtain rp w1 where rp: "balance_of_public tc a w = (rp, w1)"
      by (cases "balance_of_public tc a w")
    obtain rq w2 where rq: "balance_of_private tc a w1 = (rq, w2)"
      by (cases "balance_of_private tc a w1")
    have "fst (snd (getL2TokenBalances tc a (t, w))) = t @ [Call_balance_of_public a]
          \<or> fst (snd (getL2TokenBalances tc a (t, w)))
              = t @ [Call_balance_of_public a, Call_balance_of_private a]"
      using rp rq
      by (simp add: getL2TokenBalances_def bind_p_def promise_all2_def start_p_def return_p_def
            split: started.splits sum.splits)
    then show ?thesis using p by auto
  qed
  then show ?thesis unfolding emits_def by blast
qed

lemma emits_logBalances:
  assumes "\<And>c. \<not> bridge_operation c \<Longrightarrow> P c"
  shows "emits P (logBalances c t a tc b)"
  unfolding logBalances_def
  by (intro emits_rules emits_getL1TokenBalance emits_getL2TokenBalances assms)

lemma emits_createAccountFromEnv:
  assumes "\<And>c. \<not> bridge_operation c \<Longrightarrow> P c"
  shows "emits P (createAccountFromEnv sdk env)"
proof -
  have ev: "\<And>c f. \<not> bridge_operation c \<Longrightarrow> emits P (call_p c f)"
    by (intro emits_call assms)
  show ?thesis
    unfolding createAccountFromEnv_def
    by (auto intro!: emits_rules ev simp: bridge_operation_def split: option.splits)
qed

lemma emits_setup_l1_wallet:
  assumes "\<And>c. \<not> bridge_operation c \<Longrightarrow> P c"
  shows "emits P (setup_l1_wallet sdk env cfg)"
proof -
  have ev: "\<And>c f. \<not> bridge_operation c \<Longrightarrow> emits P (call_p c f)"
    by (intro emits_call assms)
  show ?thesis
    unfolding setup_l1_wallet_def Let_def
    by (auto intro!: emits_rules ev simp: bridge_operation_def split: option.splits)
qed

lemma emits_register_deployed:
  assumes "\<And>c. \<not> bridge_operation c \<Longrightarrow> P c"
  shows "emits P (register_deployed sdk cfg field what)"
proof -
  have ev: "\<And>c f. \<not> bridge_operation c \<Longrightarrow> emits P (call_p c f)"
    by (intro emits_call assms)
  show ?thesis
    unfolding register_deployed_def
    by (auto intro!: emits_rules ev simp: bridge_operation_def split: list.splits)
qed

lemma emits_setup_l2_wallet:
  assumes "\<And>c. \<not> bridge_operation c \<Longrightarrow> P c"
  shows "emits P (setup_l2_wallet sdk env cfg)"
proof -
  have ev: "\<And>c f. \<not> bridge_operation c \<Longrightarrow> emits P (call_p c f)"
    by (intro emits_call assms)
  show ?thesis
    unfolding setup_l2_wallet_def getAccountFromEnv_def
    by (intro emits_rules ev emits_createAccountFromEnv emits_register_deployed assms)
       (simp_all add: bridge_operation_def)
qed

lemma emits_prepare:
  assumes "\<And>c. \<not> bridge_operation c \<Longrightarrow> P c"
  shows "emits P (prepare sdk env cfg)"
proof -
  have ev: "\<And>c f. \<not> bridge_operation c \<Longrightarrow> emits P (call_p c f)"
    by (intro emits_call assms)
  show ?thesis
    unfolding prepare_def
    by (auto intro!: emits_rules ev emits_setup_l1_wallet emits_setup_l2_wallet emits_logBalances
          assms simp: bridge_operation_def split: option.splits)
qed

lemma emits_bind_throws:
  assumes "emits P m" and "always_throws m"
  shows "emits P (bind_p m f)"
proof -
  have "bind_p m f s = (case m s of (r, s') \<Rightarrow> (Inl (projl r), s'))" for s
  proof -
    obtain r s' where ms: "m s = (r, s')" by (cases "m s")
    then have "isl r" using assms(2) unfolding always_throws_def by (metis fst_conv)
    then show ?thesis using ms by (cases r) (simp_all add: bind_p_def)
  qed
  then have "fst (snd (bind_p m f (t, w))) = fst (snd (m (t, w)))" for t w
    by (simp split: prod.splits)
  then show ?thesis using assms(1) unfolding emits_def by simp
qed

text \<open>The definitions a run of the scripts on the sample configuration unfolds.\<close>

lemmas prog_defs = bind_p_def return_p_def throw_p_def call_p_def lift_p_def try_catch_def
  promise_all2_def start_p_def ok_def

lemmas script_defs = run_script_def module_init_def lookup_network_def main_def main_steps_def
  prepare_def setup_l1_wallet_def
  setup_l2_wallet_def getAccountFromEnv_def createAccountFromEnv_def register_deployed_def
  logBalances_def getL1TokenBalance_def getL2TokenBalances_def bridge_and_report_def
  bridge_call_def normalize_private_key_def or_default_def truthy_def

lemmas sample_defs = sample_sdk_def sample_env_def sample_key_def sample_network_def
  sample_token_def sample_l1_client_def sample_token_contract_def other_sdk_def
  other_network_def

lemma module_init_Some:
  assumes "networks sdk (or_default (env ''AZTEC_ENV'') ''devnet'') = Some nc"
  shows "\<exists>cfg. module_init sc sdk env = Inr cfg \<and> networkConfig cfg = Network nc
           \<and> BRIDGE_PRIVATE cfg = (env ''BRIDGE_PRIVATE'' = Some ''true'')"
  using assms by (simp add: module_init_def lookup_network_def Let_def)

lemma run_script_network:
  assumes "networks sdk (or_default (env ''AZTEC_ENV'') ''devnet'') = Some nc"
  shows "run_script sc sdk env w
         = main_steps sc sdk env
             \<lparr>BRIDGE_AMOUNT = or_default (env ''BRIDGE_AMOUNT'')
                                (case sc of bridge_l1_to_l2 \<Rightarrow> ''2'' | bridge_l2_to_l1 \<Rightarrow> ''1''),
              BRIDGE_PRIVATE = (env ''BRIDGE_PRIVATE'' = Some ''true''),
              ENV = or_default (env ''AZTEC_ENV'') ''devnet'', networkConfig = nc\<rparr> w"
  using assms by (simp add: run_script_def main_def module_init_def lookup_network_def Let_def)

section \<open>An unknown token\<close>

lemma always_throws_case_prod:
  "(\<And>a b. always_throws (f a b)) \<Longrightarrow> always_throws (case x of (a, b) \<Rightarrow> f a b)"
  by (cases x) simp

lemma prepare_throws_without_token:
  assumes "getToken sdk (networkConfig cfg) ''RHT'' = None"
  shows "always_throws (prepare sdk env cfg)"
  unfolding prepare_def
  by (intro always_throws_bind2 always_throws_case_prod) (simp add: assms always_throws_throw)

lemma getToken_absent:
  "sy \<notin> set (map symbol (tokens nc)) \<Longrightarrow> CompliantBridge_getToken nc sy = None"
  by (auto simp: CompliantBridge_getToken_def find_None_iff)

lemma main_steps_without_token:
  assumes "getToken sdk (networkConfig cfg) ''RHT'' = None"
  shows "exit_code (fst (main_steps sc sdk env cfg w)) = 1
         \<and> list_all (\<lambda>c. \<not> bridge_operation c) (fst (snd (main_steps sc sdk env cfg w)))"
proof -
  obtain r t' w' where p: "prepare sdk env cfg ([], w) = (r, (t', w'))" by (metis prod_cases3)
  have "isl r"
    using prepare_throws_without_token [OF assms, of env] p
    unfolding always_throws_def by (metis fst_conv)
  then obtain e where r: "r = Inl e" by (cases r) auto
  have "list_all (\<lambda>c. \<not> bridge_operation c) t'"
    by (rule emits_trace [OF emits_prepare p]) simp_all
  then show ?thesis using p r by (simp add: main_steps_def)
qed

text \<open>
  C6: for every token symbol that is absent from the network configuration, \<open>getToken\<close>
  returns not-found and the bridge methods reject the request without announcing a step or
  touching a chain.  In the scripts the symbol is RHT: when the lookup fails, the script ends with
  exit code 1 and its trace holds no bridge call and no step.
\<close>

theorem absent_token_rejected:
  assumes "sy \<notin> set (map symbol (tokens nc))"
  shows "CompliantBridge_getToken nc sy = None
     \<and> CompliantBridge_bridge ops nc dir (req\<lparr>token := (token req)\<lparr>symbol := sy\<rparr>\<rparr>) w
         = (([], Inl (Error ''token not configured'')), w)
     \<and> (sy = ''RHT'' \<and> networks sdk (or_default (env ''AZTEC_ENV'') ''devnet'') = Some nc
          \<and> getToken sdk = CompliantBridge_getToken \<longrightarrow>
        exit_code (fst (run_script sc sdk env w)) = 1
        \<and> list_all (\<lambda>c. \<not> bridge_operation c) (fst (snd (run_script sc sdk env w))))"
proof (intro conjI impI)
  show none: "CompliantBridge_getToken nc sy = None" by (rule getToken_absent [OF assms])
  show "CompliantBridge_bridge ops nc dir (req\<lparr>token := (token req)\<lparr>symbol := sy\<rparr>\<rparr>) w
         = (([], Inl (Error ''token not configured'')), w)"
    by (simp add: CompliantBridge_bridge_def none)
  assume h: "sy = ''RHT'' \<and> networks sdk (or_default (env ''AZTEC_ENV'') ''devnet'') = Some nc
          \<and> getToken sdk = CompliantBridge_getToken"
  then obtain cfg where rs: "run_script sc sdk env w = main_steps sc sdk env cfg w"
      and cfg: "networkConfig cfg = nc"
    using run_script_network [of sdk env nc sc w] by (metis config.select_convs(4))
  have g: "getToken sdk (networkConfig cfg) ''RHT'' = None" using h none cfg by simp
  show "exit_code (fst (run_script sc sdk env w)) = 1"
    unfolding rs using main_steps_without_token [OF g] by blast
  show "list_all (\<lambda>c. \<not> bridge_operation c) (fst (snd (run_script sc sdk env w)))"
    unfolding rs using main_steps_without_token [OF g] by blast
qed

theorem absent_token_rejected_witness:
  "''RHT'' \<notin> set (map symbol (tokens other_network))
   \<and> CompliantBridge_getToken other_network ''RHT'' = None
   \<and> CompliantBridge_bridge sample_ops other_network L1ToL2 sample_request 0
       = (([], Inl (Error ''token not configured'')), 0)
   \<and> networks other_sdk (or_default (sample_env ''AZTEC_ENV'') ''devnet'') = Some other_network
   \<and> getToken other_sdk = CompliantBridge_getToken
   \<and> exit_code (fst (run_script bridge_l1_to_l2 other_sdk sample_env 0)) = 1
   \<and> list_all (\<lambda>c. \<not> bridge_operation c)
        (fst (snd (run_script bridge_l1_to_l2 other_sdk sample_env 0)))
   \<and> fst (run_script bridge_l1_to_l2 other_sdk sample_env 0)
       = Exit1_Unhandled (Error ''RHT token not found in network configuration'')"
proof -
  have a: "''RHT'' \<notin> set (map symbol (tokens other_network))"
    by (simp add: other_network_def sample_network_def sample_token_def)
  have r: "sample_request\<lparr>token := (token sample_request)\<lparr>symbol := ''RHT''\<rparr>\<rparr> = sample_request"
    by (simp add: sample_request_def sample_token_def)
  have n: "networks other_sdk (or_default (sample_env ''AZTEC_ENV'') ''devnet'') = Some other_network"
    by (simp add: other_sdk_def sample_env_def or_default_def truthy_def)
  have g: "getToken other_sdk = CompliantBridge_getToken"
    by (simp add: other_sdk_def sample_sdk_def)
  have o: "fst (run_script bridge_l1_to_l2 other_sdk sample_env 0)
       = Exit1_Unhandled (Error ''RHT token not found in network configuration'')"
    by (simp add: script_defs prog_defs sample_defs Let_def CompliantBridge_getToken_def)
  show ?thesis
    using a n g o absent_token_rejected [OF a, of sample_ops L1ToL2 sample_request 0 other_sdk
        sample_env bridge_l1_to_l2]
    by (simp only: r simp_thms)
qed

section \<open>Configuration errors\<close>

lemma createAccountFromEnv_missing:
  assumes "truthy (env ''ADMIN_SECRET_KEY'') = None \<or> truthy (env ''ADMIN_SIGNING_KEY'') = None
           \<or> truthy (env ''ADMIN_SALT'') = None"
  shows "\<exists>e. createAccountFromEnv sdk env = throw_p e"
  using assms by (auto simp: createAccountFromEnv_def split: option.splits)

lemma setup_l2_wallet_missing:
  assumes "truthy (env ''ADMIN_SECRET_KEY'') = None \<or> truthy (env ''ADMIN_SIGNING_KEY'') = None
           \<or> truthy (env ''ADMIN_SALT'') = None"
  shows "always_throws (setup_l2_wallet sdk env cfg)"
    and "emits connection_setup (setup_l2_wallet sdk env cfg)"
proof -
  obtain e where e: "createAccountFromEnv sdk env = throw_p e"
    using createAccountFromEnv_missing [OF assms] by blast
  have eq: "setup_l2_wallet sdk env cfg =
     bind_p (call_p (Call_CachedAztecNode_initialize (nodeUrl (networkConfig cfg)))
               (CachedAztecNode_initialize sdk (nodeUrl (networkConfig cfg)))) (\<lambda>_.
     bind_p (call_p Call_CachedAztecNode_getInstance (CachedAztecNode_getInstance sdk)) (\<lambda>_.
     bind_p (call_p Call_waitForNode (waitForNode sdk)) (\<lambda>_.
     bind_p (call_p (Call_TestWallet_create (skipSandbox (networkConfig cfg)))
               (TestWallet_create sdk (skipSandbox (networkConfig cfg)))) (\<lambda>_.
     throw_p e))))"
    unfolding setup_l2_wallet_def getAccountFromEnv_def e bind_p_throw ..
  show "always_throws (setup_l2_wallet sdk env cfg)"
    unfolding eq by (intro always_throws_bind2 always_throws_throw)
  show "emits connection_setup (setup_l2_wallet sdk env cfg)"
    unfolding eq by (intro emits_rules emits_call) (simp_all add: connection_setup_def)
qed

lemma emits_setup_l1_wallet_connection: "emits connection_setup (setup_l1_wallet sdk env cfg)"
  unfolding setup_l1_wallet_def Let_def
  by (auto intro!: emits_rules emits_call simp: connection_setup_def split: option.splits)

lemma prepare_missing_admin:
  assumes "truthy (env ''ADMIN_SECRET_KEY'') = None \<or> truthy (env ''ADMIN_SIGNING_KEY'') = None
           \<or> truthy (env ''ADMIN_SALT'') = None"
  shows "always_throws (prepare sdk env cfg)"
    and "emits connection_setup (prepare sdk env cfg)"
proof -
  show "always_throws (prepare sdk env cfg)"
    unfolding prepare_def
    by (intro always_throws_bind2 always_throws_bind1 setup_l2_wallet_missing(1) assms)
  show "emits connection_setup (prepare sdk env cfg)"
    unfolding prepare_def
    by (intro emits_bind emits_setup_l1_wallet_connection emits_bind_throws
          setup_l2_wallet_missing assms)
qed

lemma main_steps_missing_admin:
  assumes "truthy (env ''ADMIN_SECRET_KEY'') = None \<or> truthy (env ''ADMIN_SIGNING_KEY'') = None
           \<or> truthy (env ''ADMIN_SALT'') = None"
  shows "exit_code (fst (main_steps sc sdk env cfg w)) = 1
         \<and> list_all connection_setup (fst (snd (main_steps sc sdk env cfg w)))"
proof -
  obtain r t' w' where p: "prepare sdk env cfg ([], w) = (r, (t', w'))" by (metis prod_cases3)
  have "isl r"
    using prepare_missing_admin(1) [OF assms, of sdk cfg] p
    unfolding always_throws_def by (metis fst_conv)
  then obtain e where r: "r = Inl e" by (cases r) auto
  have "list_all connection_setup t'"
    by (rule emits_trace [OF prepare_missing_admin(2) [OF assms] p]) simp
  then show ?thesis using p r by (simp add: main_steps_def)
qed

text \<open>
  C7, as amended: every configuration error is fatal (exit code 1), but not every one aborts
  before a chain is contacted.  An environment name that \<^verbatim>\<open>networks\<close> does not resolve at all
  ends the script at module level with the \<^verbatim>\<open>Invalid AZTEC_ENV\<close> message.  A name that is not a
  network but resolves to an inherited property (\<^verbatim>\<open>constructor\<close>, \<^verbatim>\<open>toString\<close>, ...) passes
  that guard and ends \<open>main\<close> with a TypeError at its first read of
  \<^verbatim>\<open>networkConfig.network\<close>.  A missing \<^verbatim>\<open>ETHEREUM_WALLET_PRIVATE_KEY\<close> ends \<open>main\<close> at its
  first check.  These three abort before any call into a client, so before any chain
  interaction.  A missing \<^verbatim>\<open>ADMIN_SECRET_KEY\<close>, \<^verbatim>\<open>ADMIN_SIGNING_KEY\<close> or \<^verbatim>\<open>ADMIN_SALT\<close>
  is found only in \<open>getAccountFromEnv\<close>: by then the L1 client has been built and the L2 node
  has been contacted (\<^verbatim>\<open>waitForNode\<close>, \<^verbatim>\<open>TestWallet.create\<close>); nothing beyond these
  connection calls has happened, so no account creation, contract registration, balance read or
  bridge operation.
\<close>

theorem configuration_errors_fatal:
  "(networks sdk (or_default (env ''AZTEC_ENV'') ''devnet'') = None
        \<and> \<not> inherited_key sdk (or_default (env ''AZTEC_ENV'') ''devnet'') \<longrightarrow>
      run_script sc sdk env w
        = (Exit1_InvalidEnv (''Invalid AZTEC_ENV: '' @ or_default (env ''AZTEC_ENV'') ''devnet''
             @ ''. Must be one of: devnet, sandbox, testnet''), [], w))
   \<and> (networks sdk (or_default (env ''AZTEC_ENV'') ''devnet'') = None
        \<and> inherited_key sdk (or_default (env ''AZTEC_ENV'') ''devnet'') \<longrightarrow>
      (\<exists>m. run_script sc sdk env w = (Exit1_Unhandled (TypeError m), [], w)))
   \<and> (networks sdk (or_default (env ''AZTEC_ENV'') ''devnet'') = Some nc
        \<and> truthy (env ''ETHEREUM_WALLET_PRIVATE_KEY'') = None \<longrightarrow>
      run_script sc sdk env w
        = (Exit1_Unhandled (Error ''ETHEREUM_WALLET_PRIVATE_KEY environment variable is required''),
           [], w))
   \<and> (networks sdk (or_default (env ''AZTEC_ENV'') ''devnet'') = Some nc
        \<and> (truthy (env ''ADMIN_SECRET_KEY'') = None \<or> truthy (env ''ADMIN_SIGNING_KEY'') = None
             \<or> truthy (env ''ADMIN_SALT'') = None) \<longrightarrow>
      exit_code (fst (run_script sc sdk env w)) = 1
      \<and> list_all connection_setup (fst (snd (run_script sc sdk env w))))"
proof (intro conjI impI)
  assume "networks sdk (or_default (env ''AZTEC_ENV'') ''devnet'') = None
        \<and> \<not> inherited_key sdk (or_default (env ''AZTEC_ENV'') ''devnet'')"
  then show "run_script sc sdk env w
        = (Exit1_InvalidEnv (''Invalid AZTEC_ENV: '' @ or_default (env ''AZTEC_ENV'') ''devnet''
             @ ''. Must be one of: devnet, sandbox, testnet''), [], w)"
    by (simp add: run_script_def module_init_def lookup_network_def Let_def)
next
  assume "networks sdk (or_default (env ''AZTEC_ENV'') ''devnet'') = None
        \<and> inherited_key sdk (or_default (env ''AZTEC_ENV'') ''devnet'')"
  then show "\<exists>m. run_script sc sdk env w = (Exit1_Unhandled (TypeError m), [], w)"
    by (simp add: run_script_def module_init_def lookup_network_def main_def Let_def)
next
  assume h: "networks sdk (or_default (env ''AZTEC_ENV'') ''devnet'') = Some nc
        \<and> truthy (env ''ETHEREUM_WALLET_PRIVATE_KEY'') = None"
  then have n: "networks sdk (or_default (env ''AZTEC_ENV'') ''devnet'') = Some nc"
    and k: "truthy (env ''ETHEREUM_WALLET_PRIVATE_KEY'') = None" by simp_all
  show "run_script sc sdk env w
        = (Exit1_Unhandled (Error ''ETHEREUM_WALLET_PRIVATE_KEY environment variable is required''),
           [], w)"
    unfolding run_script_network [of sdk env nc, OF n]
    by (simp add: main_steps_def prepare_def setup_l1_wallet_def k bind_p_throw throw_p_def)
next
  assume h: "networks sdk (or_default (env ''AZTEC_ENV'') ''devnet'') = Some nc
        \<and> (truthy (env ''ADMIN_SECRET_KEY'') = None \<or> truthy (env ''ADMIN_SIGNING_KEY'') = None
             \<or> truthy (env ''ADMIN_SALT'') = None)"
  then have n: "networks sdk (or_default (env ''AZTEC_ENV'') ''devnet'') = Some nc"
    by (rule conjunct1)
  have m: "truthy (env ''ADMIN_SECRET_KEY'') = None \<or> truthy (env ''ADMIN_SIGNING_KEY'') = None
             \<or> truthy (env ''ADMIN_SALT'') = None" using h by (rule conjunct2)
  show "exit_code (fst (run_script sc sdk env w)) = 1"
    unfolding run_script_network [of sdk env nc, OF n] using main_steps_missing_admin [OF m] by (rule conjunct1)
  show "list_all connection_setup (fst (snd (run_script sc sdk env w)))"
    unfolding run_script_network [of sdk env nc, OF n] using main_steps_missing_admin [OF m] by (rule conjunct2)
qed

theorem configuration_errors_fatal_witness:
  "networks sample_sdk (or_default ((sample_env(''AZTEC_ENV'' \<mapsto> ''mainnet'')) ''AZTEC_ENV'') ''devnet'')
     = None
   \<and> \<not> inherited_key sample_sdk
         (or_default ((sample_env(''AZTEC_ENV'' \<mapsto> ''mainnet'')) ''AZTEC_ENV'') ''devnet'')
   \<and> run_script bridge_l2_to_l1 sample_sdk (sample_env(''AZTEC_ENV'' \<mapsto> ''mainnet'')) 0
       = (Exit1_InvalidEnv ''Invalid AZTEC_ENV: mainnet. Must be one of: devnet, sandbox, testnet'',
          [], 0)
   \<and> networks sample_sdk
         (or_default ((sample_env(''AZTEC_ENV'' \<mapsto> ''constructor'')) ''AZTEC_ENV'') ''devnet'') = None
   \<and> inherited_key sample_sdk
         (or_default ((sample_env(''AZTEC_ENV'' \<mapsto> ''constructor'')) ''AZTEC_ENV'') ''devnet'')
   \<and> (\<exists>m. run_script bridge_l2_to_l1 sample_sdk (sample_env(''AZTEC_ENV'' \<mapsto> ''constructor'')) 0
            = (Exit1_Unhandled (TypeError m), [], 0))
   \<and> networks sample_sdk (or_default (sample_env ''AZTEC_ENV'') ''devnet'') = Some sample_network
   \<and> truthy ((sample_env(''ETHEREUM_WALLET_PRIVATE_KEY'' := None)) ''ETHEREUM_WALLET_PRIVATE_KEY'')
       = None
   \<and> run_script bridge_l2_to_l1 sample_sdk (sample_env(''ETHEREUM_WALLET_PRIVATE_KEY'' := None)) 0
       = (Exit1_Unhandled (Error ''ETHEREUM_WALLET_PRIVATE_KEY environment variable is required''),
          [], 0)
   \<and> truthy ((sample_env(''ADMIN_SALT'' \<mapsto> [])) ''ADMIN_SALT'') = None
   \<and> exit_code (fst (run_script bridge_l2_to_l1 sample_sdk (sample_env(''ADMIN_SALT'' \<mapsto> [])) 0))
       = 1
   \<and> list_all connection_setup
        (fst (snd (run_script bridge_l2_to_l1 sample_sdk (sample_env(''ADMIN_SALT'' \<mapsto> [])) 0)))"
proof -
  let ?e1 = "sample_env(''AZTEC_ENV'' \<mapsto> ''mainnet'')"
  let ?e4 = "sample_env(''AZTEC_ENV'' \<mapsto> ''constructor'')"
  let ?e2 = "sample_env(''ETHEREUM_WALLET_PRIVATE_KEY'' := None)"
  let ?e3 = "sample_env(''ADMIN_SALT'' \<mapsto> [])"
  have d1: "or_default (?e1 ''AZTEC_ENV'') ''devnet'' = ''mainnet''"
    by (simp add: or_default_def truthy_def)
  have d4: "or_default (?e4 ''AZTEC_ENV'') ''devnet'' = ''constructor''"
    by (simp add: or_default_def truthy_def)
  have n1: "networks sample_sdk (or_default (?e1 ''AZTEC_ENV'') ''devnet'') = None"
    unfolding d1 by (simp add: sample_sdk_def)
  have i1: "\<not> inherited_key sample_sdk (or_default (?e1 ''AZTEC_ENV'') ''devnet'')"
    unfolding d1 by (simp add: sample_sdk_def)
  have n4: "networks sample_sdk (or_default (?e4 ''AZTEC_ENV'') ''devnet'') = None"
    unfolding d4 by (simp add: sample_sdk_def)
  have i4: "inherited_key sample_sdk (or_default (?e4 ''AZTEC_ENV'') ''devnet'')"
    unfolding d4 by (simp add: sample_sdk_def)
  have n2: "networks sample_sdk (or_default (?e2 ''AZTEC_ENV'') ''devnet'') = Some sample_network"
    by (simp add: sample_sdk_def sample_env_def or_default_def truthy_def)
  have n3: "networks sample_sdk (or_default (?e3 ''AZTEC_ENV'') ''devnet'') = Some sample_network"
    by (simp add: sample_sdk_def sample_env_def or_default_def truthy_def)
  have n0: "networks sample_sdk (or_default (sample_env ''AZTEC_ENV'') ''devnet'') = Some sample_network"
    by (simp add: sample_sdk_def sample_env_def or_default_def truthy_def)
  have k2: "truthy (?e2 ''ETHEREUM_WALLET_PRIVATE_KEY'') = None" by (simp add: truthy_def)
  have k3: "truthy (?e3 ''ADMIN_SALT'') = None" by (simp add: truthy_def)
  have c1: "run_script bridge_l2_to_l1 sample_sdk ?e1 0
       = (Exit1_InvalidEnv ''Invalid AZTEC_ENV: mainnet. Must be one of: devnet, sandbox, testnet'',
          [], 0)"
    using configuration_errors_fatal [of sample_sdk ?e1 bridge_l2_to_l1 0] n1 i1 d1 by simp
  have c4: "\<exists>m. run_script bridge_l2_to_l1 sample_sdk ?e4 0 = (Exit1_Unhandled (TypeError m), [], 0)"
    using configuration_errors_fatal [of sample_sdk ?e4 bridge_l2_to_l1 0] n4 i4 by blast
  have c2: "run_script bridge_l2_to_l1 sample_sdk ?e2 0
       = (Exit1_Unhandled (Error ''ETHEREUM_WALLET_PRIVATE_KEY environment variable is required''),
          [], 0)"
    using configuration_errors_fatal [of sample_sdk ?e2 bridge_l2_to_l1 0 sample_network] n2 k2
    by blast
  have c3: "exit_code (fst (run_script bridge_l2_to_l1 sample_sdk ?e3 0)) = 1
       \<and> list_all connection_setup (fst (snd (run_script bridge_l2_to_l1 sample_sdk ?e3 0)))"
    using configuration_errors_fatal [of sample_sdk ?e3 bridge_l2_to_l1 0 sample_network] n3 k3
    by blast
  show ?thesis using n1 i1 c1 n4 i4 c4 n0 k2 c2 k3 c3 by (intro conjI) blast+
qed

text \<open>
  The claim as stated fails for the L2 account credentials: with \<^verbatim>\<open>ADMIN_SECRET_KEY\<close> unset the
  script has already waited for the node and created the wallet on it when it stops.
\<close>

theorem missing_admin_key_after_node_contact:
  "run_script bridge_l1_to_l2 sample_sdk (sample_env(''ADMIN_SECRET_KEY'' := None)) 0
     = (Exit1_Unhandled (Error
          ''ADMIN_SECRET_KEY environment variable is required. Please set it in your .env file.''),
        [Call_privateKeyToAccount (''0x'' @ sample_key),
         Call_createExtendedL1Client [''http://a'', ''http://b''] ''0xf39Fd6e51aad88F6F4ce6aB8827279cffFb92266'' sepolia,
         Call_CachedAztecNode_initialize ''http://node'',
         Call_CachedAztecNode_getInstance, Call_waitForNode, Call_TestWallet_create True],
        0)
   \<and> chain_interaction Call_waitForNode
   \<and> chain_interaction (Call_TestWallet_create True)
   \<and> \<not> list_all (\<lambda>c. \<not> chain_interaction c)
         (fst (snd (run_script bridge_l1_to_l2 sample_sdk
                      (sample_env(''ADMIN_SECRET_KEY'' := None)) 0)))"
proof -
  have run: "run_script bridge_l1_to_l2 sample_sdk (sample_env(''ADMIN_SECRET_KEY'' := None)) 0
     = (Exit1_Unhandled (Error
          ''ADMIN_SECRET_KEY environment variable is required. Please set it in your .env file.''),
        [Call_privateKeyToAccount (''0x'' @ sample_key),
         Call_createExtendedL1Client [''http://a'', ''http://b''] ''0xf39Fd6e51aad88F6F4ce6aB8827279cffFb92266'' sepolia,
         Call_CachedAztecNode_initialize ''http://node'',
         Call_CachedAztecNode_getInstance, Call_waitForNode, Call_TestWallet_create True],
        0)"
    by (simp add: script_defs prog_defs sample_defs Let_def)
  show ?thesis unfolding run by (simp add: chain_interaction_def)
qed

section \<open>The privacy mode\<close>

lemma emits_bridge_call:
  assumes "isPrivate req = priv"
  shows "emits (bridges_with_mode priv) (bridge_call sc sdk nc req)"
  unfolding emits_def
proof (intro allI)
  fix t w
  have ons: "list_all (bridges_with_mode priv) (map OnStep ev)" for ev
    by (induction ev) (simp_all add: bridges_with_mode_def)
  show "\<exists>u. fst (snd (bridge_call sc sdk nc req (t, w))) = t @ u
            \<and> list_all (bridges_with_mode priv) u"
  proof (cases sc)
    case bridge_l1_to_l2
    obtain ev r w' where b: "bridgeL1ToL2 sdk nc req w = ((ev, r), w')"
      by (metis surj_pair)
    have "fst (snd (bridge_call sc sdk nc req (t, w))) = t @ (Call_bridgeL1ToL2 req # map OnStep ev)"
      using bridge_l1_to_l2 b by (simp add: bridge_call_def)
    moreover have "list_all (bridges_with_mode priv) (Call_bridgeL1ToL2 req # map OnStep ev)"
      using assms ons by (simp add: bridges_with_mode_def)
    ultimately show ?thesis by blast
  next
    case bridge_l2_to_l1
    obtain ev r w' where b: "bridgeL2ToL1 sdk nc req w = ((ev, r), w')"
      by (metis surj_pair)
    have "fst (snd (bridge_call sc sdk nc req (t, w))) = t @ (Call_bridgeL2ToL1 req # map OnStep ev)"
      using bridge_l2_to_l1 b by (simp add: bridge_call_def)
    moreover have "list_all (bridges_with_mode priv) (Call_bridgeL2ToL1 req # map OnStep ev)"
      using assms ons by (simp add: bridges_with_mode_def)
    ultimately show ?thesis by blast
  qed
qed

lemma bridges_with_mode_other: "\<not> bridge_operation c \<Longrightarrow> bridges_with_mode priv c"
  by (cases c) (simp_all add: bridge_operation_def bridges_with_mode_def)

lemma emits_bridge_and_report:
  "emits (bridges_with_mode (BRIDGE_PRIVATE cfg)) (bridge_and_report sc sdk cfg ctx)"
  unfolding bridge_and_report_def
  by (intro emits_rules emits_bridge_call emits_logBalances bridges_with_mode_other) simp_all

lemma main_steps_mode:
  "list_all (bridges_with_mode (BRIDGE_PRIVATE cfg)) (fst (snd (main_steps sc sdk env cfg w)))"
proof -
  let ?P = "bridges_with_mode (BRIDGE_PRIVATE cfg)"
  obtain r t1 w1 where p: "prepare sdk env cfg ([], w) = (r, (t1, w1))" by (metis prod_cases3)
  have t1: "list_all ?P t1"
    by (rule emits_trace [OF emits_prepare p]) (simp_all add: bridges_with_mode_other)
  show ?thesis
  proof (cases r)
    case (Inl e)
    then show ?thesis using p t1 by (simp add: main_steps_def)
  next
    case (Inr ctx)
    obtain r2 t2 w2 where b: "bridge_and_report sc sdk cfg ctx (t1, w1) = (r2, (t2, w2))"
      by (metis prod_cases3)
    have "list_all ?P t2" by (rule emits_trace [OF emits_bridge_and_report b t1])
    then show ?thesis using p Inr b by (cases r2) (simp_all add: main_steps_def)
  qed
qed

lemma main_mode:
  "list_all (bridges_with_mode (BRIDGE_PRIVATE cfg)) (fst (snd (main sc sdk env cfg w)))"
proof (cases "networkConfig cfg")
  case (Network nc)
  then show ?thesis
    using main_steps_mode [of "\<lparr>BRIDGE_AMOUNT = BRIDGE_AMOUNT cfg, BRIDGE_PRIVATE = BRIDGE_PRIVATE cfg,
             ENV = ENV cfg, networkConfig = nc\<rparr>" sc sdk env w]
    by (simp add: main_def)
next
  case (Inherited k)
  then show ?thesis by (simp add: main_def)
qed

lemma module_init_private_other:
  assumes "v \<noteq> Some ''true''"
  shows "module_init sc sdk (env(''BRIDGE_PRIVATE'' := v))
         = module_init sc sdk (env(''BRIDGE_PRIVATE'' := None))"
  using assms by (simp add: module_init_def)

lemma createAccountFromEnv_private:
  "createAccountFromEnv sdk (env(''BRIDGE_PRIVATE'' := v)) = createAccountFromEnv sdk env"
proof -
  have "(env(''BRIDGE_PRIVATE'' := v)) ''ADMIN_SECRET_KEY'' = env ''ADMIN_SECRET_KEY''"
       "(env(''BRIDGE_PRIVATE'' := v)) ''ADMIN_SIGNING_KEY'' = env ''ADMIN_SIGNING_KEY''"
       "(env(''BRIDGE_PRIVATE'' := v)) ''ADMIN_SALT'' = env ''ADMIN_SALT''"
    by simp_all
  then show ?thesis unfolding createAccountFromEnv_def by (simp only:)
qed

lemma setup_l1_wallet_private:
  "setup_l1_wallet sdk (env(''BRIDGE_PRIVATE'' := v)) cfg = setup_l1_wallet sdk env cfg"
proof -
  have "(env(''BRIDGE_PRIVATE'' := v)) ''ETHEREUM_WALLET_PRIVATE_KEY''
        = env ''ETHEREUM_WALLET_PRIVATE_KEY''"
    by simp
  then show ?thesis unfolding setup_l1_wallet_def by (simp only:)
qed

lemma main_steps_private:
  "main_steps sc sdk (env(''BRIDGE_PRIVATE'' := v)) cfg w = main_steps sc sdk env cfg w"
proof -
  have l2: "setup_l2_wallet sdk (env(''BRIDGE_PRIVATE'' := v)) cfg = setup_l2_wallet sdk env cfg"
    unfolding setup_l2_wallet_def getAccountFromEnv_def createAccountFromEnv_private ..
  have "prepare sdk (env(''BRIDGE_PRIVATE'' := v)) cfg = prepare sdk env cfg"
    unfolding prepare_def setup_l1_wallet_private l2 ..
  then show ?thesis unfolding main_steps_def by simp
qed

lemma main_private:
  "main sc sdk (env(''BRIDGE_PRIVATE'' := v)) cfg w = main sc sdk env cfg w"
  unfolding main_def main_steps_private ..

text \<open>
  C10: private mode is on if and only if \<^verbatim>\<open>BRIDGE_PRIVATE\<close> is exactly the string \<^verbatim>\<open>true\<close>.
  With any other value (unset, \<^verbatim>\<open>TRUE\<close>, \<^verbatim>\<open>1\<close>, \<^verbatim>\<open>yes\<close>, ...) either script runs exactly as
  with the variable unset, so in public mode and with no error of its own; every bridge call of a
  run carries the mode so determined.
\<close>

theorem bridge_private_only_true:
  "(v \<noteq> Some ''true'' \<longrightarrow>
      run_script sc sdk (env(''BRIDGE_PRIVATE'' := v)) w
      = run_script sc sdk (env(''BRIDGE_PRIVATE'' := None)) w)
   \<and> (module_init sc sdk env = Inr cfg \<longrightarrow>
        BRIDGE_PRIVATE cfg = (env ''BRIDGE_PRIVATE'' = Some ''true''))
   \<and> list_all (bridges_with_mode (env ''BRIDGE_PRIVATE'' = Some ''true''))
        (fst (snd (run_script sc sdk env w)))"
proof (intro conjI impI)
  assume v: "v \<noteq> Some ''true''"
  show "run_script sc sdk (env(''BRIDGE_PRIVATE'' := v)) w
      = run_script sc sdk (env(''BRIDGE_PRIVATE'' := None)) w"
    unfolding run_script_def module_init_private_other [OF v] main_private ..
next
  assume "module_init sc sdk env = Inr cfg"
  then show "BRIDGE_PRIVATE cfg = (env ''BRIDGE_PRIVATE'' = Some ''true'')"
    by (auto simp: module_init_def Let_def split: option.splits)
next
  show "list_all (bridges_with_mode (env ''BRIDGE_PRIVATE'' = Some ''true''))
        (fst (snd (run_script sc sdk env w)))"
  proof (cases "module_init sc sdk env")
    case (Inl msg)
    then show ?thesis by (simp add: run_script_def)
  next
    case (Inr cfg)
    then have "BRIDGE_PRIVATE cfg = (env ''BRIDGE_PRIVATE'' = Some ''true'')"
      by (auto simp: module_init_def Let_def split: option.splits)
    then show ?thesis using Inr main_mode [of cfg sc sdk env w] by (simp add: run_script_def)
  qed
qed

theorem bridge_private_only_true_witness:
  "Some ''TRUE'' \<noteq> Some ''true''
   \<and> run_script bridge_l1_to_l2 sample_sdk (sample_env(''BRIDGE_PRIVATE'' := Some ''TRUE'')) 0
       = run_script bridge_l1_to_l2 sample_sdk (sample_env(''BRIDGE_PRIVATE'' := None)) 0
   \<and> module_init bridge_l1_to_l2 sample_sdk (sample_env(''BRIDGE_PRIVATE'' := Some ''TRUE''))
       = Inr \<lparr>BRIDGE_AMOUNT = ''2'', BRIDGE_PRIVATE = False, ENV = ''devnet'',
              networkConfig = Network sample_network\<rparr>
   \<and> module_init bridge_l1_to_l2 sample_sdk (sample_env(''BRIDGE_PRIVATE'' := Some ''true''))
       = Inr \<lparr>BRIDGE_AMOUNT = ''2'', BRIDGE_PRIVATE = True, ENV = ''devnet'',
              networkConfig = Network sample_network\<rparr>
   \<and> list_all (bridges_with_mode False)
        (fst (snd (run_script bridge_l1_to_l2 sample_sdk
                     (sample_env(''BRIDGE_PRIVATE'' := Some ''TRUE'')) 0)))"
proof -
  let ?e = "sample_env(''BRIDGE_PRIVATE'' := Some ''TRUE'')"
  let ?cfg = "\<lparr>BRIDGE_AMOUNT = ''2'', BRIDGE_PRIVATE = False, ENV = ''devnet'',
              networkConfig = Network sample_network\<rparr>"
  have v: "Some ''TRUE'' \<noteq> Some ''true''" by simp
  have m: "module_init bridge_l1_to_l2 sample_sdk ?e = Inr ?cfg"
    by (simp add: module_init_def lookup_network_def or_default_def truthy_def sample_env_def
          sample_sdk_def)
  have m': "module_init bridge_l1_to_l2 sample_sdk (sample_env(''BRIDGE_PRIVATE'' := Some ''true''))
       = Inr \<lparr>BRIDGE_AMOUNT = ''2'', BRIDGE_PRIVATE = True, ENV = ''devnet'',
              networkConfig = Network sample_network\<rparr>"
    by (simp add: module_init_def lookup_network_def or_default_def truthy_def sample_env_def
          sample_sdk_def)
  have f: "(?e ''BRIDGE_PRIVATE'' = Some ''true'') = False" by simp
  show ?thesis
    using v m m'
      bridge_private_only_true [of "Some ''TRUE''" bridge_l1_to_l2 sample_sdk sample_env 0 ?cfg]
      bridge_private_only_true [of "Some ''TRUE''" bridge_l1_to_l2 sample_sdk ?e 0 ?cfg]
    unfolding f by (intro conjI) blast+
qed

section \<open>The L1 private key\<close>

lemma replace_first_absent:
  "CHR ''x'' \<notin> set h \<Longrightarrow> replace_first ''0x'' rep h = h"
proof (induction h)
  case Nil
  then show ?case by simp
next
  case (Cons c cs)
  then show ?case by (cases cs) auto
qed

lemma is_hex_not_x: "list_all is_hex h \<Longrightarrow> CHR ''x'' \<notin> set h"
proof -
  have "\<not> is_hex (CHR ''x'')" by (simp add: is_hex_def)
  then show "list_all is_hex h \<Longrightarrow> CHR ''x'' \<notin> set h"
    by (auto simp: list_all_iff)
qed

lemma normalize_private_key_prefixed:
  "normalize_private_key (CHR ''0'' # CHR ''x'' # h) = CHR ''0'' # CHR ''x'' # h"
  by (simp add: normalize_private_key_def)

lemma normalize_private_key_bare:
  "list_all is_hex h \<Longrightarrow> normalize_private_key h = CHR ''0'' # CHR ''x'' # h"
  by (simp add: normalize_private_key_def replace_first_absent is_hex_not_x)

lemma setup_l1_wallet_prefix:
  assumes "h \<noteq> []" and "list_all is_hex h"
  shows "setup_l1_wallet sdk (env(''ETHEREUM_WALLET_PRIVATE_KEY'' \<mapsto> ''0x'' @ h)) cfg
         = setup_l1_wallet sdk (env(''ETHEREUM_WALLET_PRIVATE_KEY'' \<mapsto> h)) cfg"
  using assms
  by (simp add: setup_l1_wallet_def truthy_def normalize_private_key_prefixed
        normalize_private_key_bare)

lemma createAccountFromEnv_other_key:
  "createAccountFromEnv sdk (env(''ETHEREUM_WALLET_PRIVATE_KEY'' := v)) = createAccountFromEnv sdk env"
proof -
  have "(env(''ETHEREUM_WALLET_PRIVATE_KEY'' := v)) ''ADMIN_SECRET_KEY'' = env ''ADMIN_SECRET_KEY''"
       "(env(''ETHEREUM_WALLET_PRIVATE_KEY'' := v)) ''ADMIN_SIGNING_KEY'' = env ''ADMIN_SIGNING_KEY''"
       "(env(''ETHEREUM_WALLET_PRIVATE_KEY'' := v)) ''ADMIN_SALT'' = env ''ADMIN_SALT''"
    by simp_all
  then show ?thesis unfolding createAccountFromEnv_def by (simp only:)
qed

lemma module_init_other_key:
  "module_init sc sdk (env(''ETHEREUM_WALLET_PRIVATE_KEY'' := v)) = module_init sc sdk env"
  by (simp add: module_init_def)

lemma trace_extends_bind:
  assumes "fst (snd (m (t, w))) = t @ p" and "\<And>a. emits P (f a)"
  shows "\<exists>u. fst (snd (bind_p m f (t, w))) = t @ p @ u"
proof -
  obtain r t1 w1 where ms: "m (t, w) = (r, (t1, w1))" by (metis prod_cases3)
  then have t1: "t1 = t @ p" using assms(1) by simp
  show ?thesis
  proof (cases r)
    case (Inl e)
    then show ?thesis using ms t1 by (simp add: bind_p_def)
  next
    case (Inr a)
    obtain v where "fst (snd (f a (t1, w1))) = t1 @ v"
      using assms(2) [of a] unfolding emits_def by blast
    then show ?thesis using ms t1 Inr by (simp add: bind_p_def)
  qed
qed

text \<open>The calls of step 1: the account derivation and, when it succeeds, the client built on it.\<close>

lemma setup_l1_wallet_trace:
  assumes "truthy (env ''ETHEREUM_WALLET_PRIVATE_KEY'') = Some k"
  shows "fst (snd (setup_l1_wallet sdk env cfg ([], w)))
         = (case privateKeyToAccount sdk (normalize_private_key k) w of
              (Inl e, w1) \<Rightarrow> [Call_privateKeyToAccount (normalize_private_key k)]
            | (Inr acct, w1) \<Rightarrow>
                [Call_privateKeyToAccount (normalize_private_key k),
                 Call_createExtendedL1Client (split (CHR '','') (l1RpcUrl (networkConfig cfg))) acct
                   (if ENV cfg = ''sandbox'' then foundry else sepolia)])"
  by (simp add: setup_l1_wallet_def assms bind_p_def call_p_def Let_def
        split: prod.splits sum.splits)

lemma main_steps_trace_prefix:
  assumes "fst (snd (setup_l1_wallet sdk env cfg ([], w))) = p"
  shows "\<exists>u. fst (snd (main_steps sc sdk env cfg w)) = p @ u"
proof -
  have rest: "emits (\<lambda>c. \<not> bridge_operation c)
     (\<lambda>s. (case a of (owner, tc) \<Rightarrow>
        bind_p (call_p (Call_new_CompliantBridge (zk_verify (networkConfig cfg)))
               (new_CompliantBridge sdk (networkConfig cfg))) (\<lambda>_.
        (case getToken sdk (networkConfig cfg) ''RHT'' of
           None \<Rightarrow> throw_p (Error ''RHT token not found in network configuration'')
         | Some rht \<Rightarrow>
             bind_p (logBalances l1 (l1_tokenAddress rht) (account_address l1) tc owner) (\<lambda>_.
             return_p \<lparr>l1Client = l1, ownerAztecAddress = owner, tokenContract = tc,
                       rhtToken = rht\<rparr>)))) s)" for a l1
    by (auto intro!: emits_rules emits_call emits_logBalances simp: bridge_operation_def
          split: option.splits prod.splits)
  have "\<exists>u. fst (snd (prepare sdk env cfg ([], w))) = [] @ p @ u"
    unfolding prepare_def
    by (rule trace_extends_bind [where P = "\<lambda>c. \<not> bridge_operation c"])
       (auto intro!: emits_rules emits_call emits_setup_l2_wallet emits_logBalances
          simp: assms bridge_operation_def split: option.splits)
  then obtain u where u: "fst (snd (prepare sdk env cfg ([], w))) = p @ u" by auto
  obtain r t1 w1 where pr: "prepare sdk env cfg ([], w) = (r, (t1, w1))" by (metis prod_cases3)
  then have t1: "t1 = p @ u" using u by simp
  show ?thesis
  proof (cases r)
    case (Inl e)
    then show ?thesis using pr t1 by (simp add: main_steps_def)
  next
    case (Inr ctx)
    obtain r2 t2 w2 where b: "bridge_and_report sc sdk cfg ctx (t1, w1) = (r2, (t2, w2))"
      by (metis prod_cases3)
    obtain v where "fst (snd (bridge_and_report sc sdk cfg ctx (t1, w1))) = t1 @ v"
      using emits_bridge_and_report [of cfg sc sdk ctx] unfolding emits_def by blast
    then have "t2 = p @ u @ v" using b t1 by simp
    then show ?thesis using pr Inr b by (cases r2) (simp_all add: main_steps_def)
  qed
qed

lemma run_script_first_calls:
  assumes n: "networks sdk (or_default (env ''AZTEC_ENV'') ''devnet'') = Some nc"
      and k: "k \<noteq> []"
  shows "\<exists>u. fst (snd (run_script sc sdk (env(''ETHEREUM_WALLET_PRIVATE_KEY'' \<mapsto> k)) w))
         = (case privateKeyToAccount sdk (normalize_private_key k) w of
              (Inl e, w1) \<Rightarrow> [Call_privateKeyToAccount (normalize_private_key k)]
            | (Inr acct, w1) \<Rightarrow>
                [Call_privateKeyToAccount (normalize_private_key k),
                 Call_createExtendedL1Client (split (CHR '','') (l1RpcUrl nc)) acct
                   (if or_default (env ''AZTEC_ENV'') ''devnet'' = ''sandbox''
                    then foundry else sepolia)]) @ u"
proof -
  let ?e = "env(''ETHEREUM_WALLET_PRIVATE_KEY'' \<mapsto> k)"
  define cfg where "cfg =
     \<lparr>BRIDGE_AMOUNT = or_default (?e ''BRIDGE_AMOUNT'')
                        (case sc of bridge_l1_to_l2 \<Rightarrow> ''2'' | bridge_l2_to_l1 \<Rightarrow> ''1''),
      BRIDGE_PRIVATE = (?e ''BRIDGE_PRIVATE'' = Some ''true''),
      ENV = or_default (?e ''AZTEC_ENV'') ''devnet'', networkConfig = nc\<rparr>"
  have a: "?e ''AZTEC_ENV'' = env ''AZTEC_ENV''" by simp
  have n': "networks sdk (or_default (?e ''AZTEC_ENV'') ''devnet'') = Some nc"
    unfolding a by (rule n)
  have t: "truthy (?e ''ETHEREUM_WALLET_PRIVATE_KEY'') = Some k" using k by (simp add: truthy_def)
  have rs: "run_script sc sdk ?e w = main_steps sc sdk ?e cfg w"
    unfolding cfg_def by (rule run_script_network [of sdk ?e nc, OF n'])
  have c1: "networkConfig cfg = nc" by (simp add: cfg_def)
  have c2: "ENV cfg = or_default (env ''AZTEC_ENV'') ''devnet''" by (simp add: cfg_def)
  have "\<exists>u. fst (snd (main_steps sc sdk ?e cfg w))
         = (case privateKeyToAccount sdk (normalize_private_key k) w of
              (Inl e, w1) \<Rightarrow> [Call_privateKeyToAccount (normalize_private_key k)]
            | (Inr acct, w1) \<Rightarrow>
                [Call_privateKeyToAccount (normalize_private_key k),
                 Call_createExtendedL1Client (split (CHR '','') (l1RpcUrl (networkConfig cfg))) acct
                   (if ENV cfg = ''sandbox'' then foundry else sepolia)]) @ u"
    by (rule main_steps_trace_prefix [OF setup_l1_wallet_trace [of ?e k sdk cfg w, OF t]])
  then show ?thesis unfolding rs c1 c2 .
qed

text \<open>
  C9: both scripts normalize the Ethereum private key before deriving the account: for a key of
  hexadecimal digits, given with or without the prefix \<^verbatim>\<open>0x\<close>, the string handed to
  \<^verbatim>\<open>privateKeyToAccount\<close> is \<^verbatim>\<open>0x\<close> followed by the digits.  That call is the first call of a
  run on a known network, and when it succeeds the second call builds the L1 client on the
  account it returned; the key with the prefix and the same key without it give the same run of
  either script, and with it the same L1 account.
\<close>

theorem private_key_prefix_normalized:
  assumes "h \<noteq> []" and "list_all is_hex h"
  shows "normalize_private_key (''0x'' @ h) = ''0x'' @ h
       \<and> normalize_private_key h = ''0x'' @ h
       \<and> run_script sc sdk (env(''ETHEREUM_WALLET_PRIVATE_KEY'' \<mapsto> ''0x'' @ h)) w
           = run_script sc sdk (env(''ETHEREUM_WALLET_PRIVATE_KEY'' \<mapsto> h)) w
       \<and> (networks sdk (or_default (env ''AZTEC_ENV'') ''devnet'') = Some nc \<longrightarrow>
            take 1 (fst (snd (run_script sc sdk (env(''ETHEREUM_WALLET_PRIVATE_KEY'' \<mapsto> h)) w)))
              = [Call_privateKeyToAccount (''0x'' @ h)]
          \<and> take 1 (fst (snd (run_script sc sdk
                                  (env(''ETHEREUM_WALLET_PRIVATE_KEY'' \<mapsto> ''0x'' @ h)) w)))
              = [Call_privateKeyToAccount (''0x'' @ h)])
       \<and> (networks sdk (or_default (env ''AZTEC_ENV'') ''devnet'') = Some nc
            \<and> privateKeyToAccount sdk (''0x'' @ h) w = (Inr acct, w1) \<longrightarrow>
            take 2 (fst (snd (run_script sc sdk (env(''ETHEREUM_WALLET_PRIVATE_KEY'' \<mapsto> h)) w)))
              = [Call_privateKeyToAccount (''0x'' @ h),
                 Call_createExtendedL1Client (split (CHR '','') (l1RpcUrl nc)) acct
                   (if or_default (env ''AZTEC_ENV'') ''devnet'' = ''sandbox''
                    then foundry else sepolia)]
          \<and> take 2 (fst (snd (run_script sc sdk
                                  (env(''ETHEREUM_WALLET_PRIVATE_KEY'' \<mapsto> ''0x'' @ h)) w)))
              = [Call_privateKeyToAccount (''0x'' @ h),
                 Call_createExtendedL1Client (split (CHR '','') (l1RpcUrl nc)) acct
                   (if or_default (env ''AZTEC_ENV'') ''devnet'' = ''sandbox''
                    then foundry else sepolia)])"
proof -
  let ?e1 = "env(''ETHEREUM_WALLET_PRIVATE_KEY'' \<mapsto> ''0x'' @ h)"
  let ?e2 = "env(''ETHEREUM_WALLET_PRIVATE_KEY'' \<mapsto> h)"
  let ?c = "Call_privateKeyToAccount (''0x'' @ h)"
  have l2: "setup_l2_wallet sdk ?e1 cfg = setup_l2_wallet sdk ?e2 cfg" for cfg
    unfolding setup_l2_wallet_def getAccountFromEnv_def createAccountFromEnv_other_key ..
  have "prepare sdk ?e1 cfg = prepare sdk ?e2 cfg" for cfg
    unfolding prepare_def setup_l1_wallet_prefix [OF assms] l2 ..
  then have ms: "main_steps sc sdk ?e1 cfg w = main_steps sc sdk ?e2 cfg w" for cfg
    unfolding main_steps_def by simp
  have m: "main sc sdk ?e1 cfg w = main sc sdk ?e2 cfg w" for cfg
    unfolding main_def ms ..
  have eq: "run_script sc sdk ?e1 w = run_script sc sdk ?e2 w"
    unfolding run_script_def module_init_other_key m ..
  have nk: "normalize_private_key h = ''0x'' @ h"
    using assms by (simp add: normalize_private_key_bare)
  have first: "take 1 (fst (snd (run_script sc sdk ?e2 w))) = [?c]"
    if n: "networks sdk (or_default (env ''AZTEC_ENV'') ''devnet'') = Some nc"
  proof -
    obtain u where "fst (snd (run_script sc sdk ?e2 w))
         = (case privateKeyToAccount sdk (''0x'' @ h) w of
              (Inl e, w1) \<Rightarrow> [?c]
            | (Inr acct, w1) \<Rightarrow>
                [?c, Call_createExtendedL1Client (split (CHR '','') (l1RpcUrl nc)) acct
                   (if or_default (env ''AZTEC_ENV'') ''devnet'' = ''sandbox''
                    then foundry else sepolia)]) @ u"
      using run_script_first_calls [of sdk env nc h sc w, OF n assms(1)] unfolding nk by blast
    then show ?thesis by (simp split: prod.splits sum.splits)
  qed
  have second: "take 2 (fst (snd (run_script sc sdk ?e2 w)))
      = [?c, Call_createExtendedL1Client (split (CHR '','') (l1RpcUrl nc)) acct
                   (if or_default (env ''AZTEC_ENV'') ''devnet'' = ''sandbox''
                    then foundry else sepolia)]"
    if n: "networks sdk (or_default (env ''AZTEC_ENV'') ''devnet'') = Some nc"
      and a: "privateKeyToAccount sdk (''0x'' @ h) w = (Inr acct, w1)"
  proof -
    obtain u where "fst (snd (run_script sc sdk ?e2 w))
         = (case privateKeyToAccount sdk (''0x'' @ h) w of
              (Inl e, w1) \<Rightarrow> [?c]
            | (Inr acct, w1) \<Rightarrow>
                [?c, Call_createExtendedL1Client (split (CHR '','') (l1RpcUrl nc)) acct
                   (if or_default (env ''AZTEC_ENV'') ''devnet'' = ''sandbox''
                    then foundry else sepolia)]) @ u"
      using run_script_first_calls [of sdk env nc h sc w, OF n assms(1)] unfolding nk by blast
    then show ?thesis unfolding a by simp
  qed
  show ?thesis
    unfolding eq
    using assms first second
    by (simp add: normalize_private_key_prefixed normalize_private_key_bare)
qed

theorem private_key_prefix_normalized_witness:
  "sample_key \<noteq> [] \<and> list_all is_hex sample_key
   \<and> normalize_private_key (''0x'' @ sample_key) = ''0x'' @ sample_key
   \<and> normalize_private_key sample_key = ''0x'' @ sample_key
   \<and> run_script bridge_l1_to_l2 sample_sdk
         (sample_env(''ETHEREUM_WALLET_PRIVATE_KEY'' \<mapsto> ''0x'' @ sample_key)) 0
       = run_script bridge_l1_to_l2 sample_sdk
         (sample_env(''ETHEREUM_WALLET_PRIVATE_KEY'' \<mapsto> sample_key)) 0
   \<and> networks sample_sdk (or_default (sample_env ''AZTEC_ENV'') ''devnet'') = Some sample_network
   \<and> privateKeyToAccount sample_sdk (''0x'' @ sample_key) 0
       = (Inr ''0xf39Fd6e51aad88F6F4ce6aB8827279cffFb92266'', 0)
   \<and> take 1 (fst (snd (run_script bridge_l1_to_l2 sample_sdk
         (sample_env(''ETHEREUM_WALLET_PRIVATE_KEY'' \<mapsto> sample_key)) 0)))
       = [Call_privateKeyToAccount (''0x'' @ sample_key)]
   \<and> take 2 (fst (snd (run_script bridge_l1_to_l2 sample_sdk
         (sample_env(''ETHEREUM_WALLET_PRIVATE_KEY'' \<mapsto> sample_key)) 0)))
       = [Call_privateKeyToAccount (''0x'' @ sample_key),
          Call_createExtendedL1Client [''http://a'', ''http://b'']
            ''0xf39Fd6e51aad88F6F4ce6aB8827279cffFb92266'' sepolia]"
proof -
  have h: "sample_key \<noteq> []" "list_all is_hex sample_key"
    by (simp_all add: is_hex_def sample_key_def)
  have n: "networks sample_sdk (or_default (sample_env ''AZTEC_ENV'') ''devnet'')
           = Some sample_network"
    by (simp add: sample_sdk_def sample_env_def or_default_def truthy_def)
  have d: "or_default (sample_env ''AZTEC_ENV'') ''devnet'' = ''devnet''"
    by (simp add: sample_env_def or_default_def truthy_def)
  have a: "privateKeyToAccount sample_sdk (''0x'' @ sample_key) 0
       = (Inr ''0xf39Fd6e51aad88F6F4ce6aB8827279cffFb92266'', 0)"
    by (simp add: sample_sdk_def ok_def)
  have u: "split (CHR '','') (l1RpcUrl sample_network) = [''http://a'', ''http://b'']"
    by (simp add: sample_network_def)
  show ?thesis
    using h n a
      private_key_prefix_normalized [OF h, of bridge_l1_to_l2 sample_sdk sample_env 0
        sample_network "''0xf39Fd6e51aad88F6F4ce6aB8827279cffFb92266''" 0]
    unfolding d u by simp
qed

section \<open>The step machine\<close>

text \<open>What one step of \<open>run_steps\<close> does, by the outcome of the sub-operation.\<close>

lemma run_steps_fail:
  assumes "ops (step_id s) w = (Inl e, w')"
  shows "run_steps ops (s # rest) tx w =
           (\<lparr>history = s\<lparr>status := error, description := Some (exn_message e)\<rparr> # rest,
             emitted = [s\<lparr>status := loading\<rparr>,
                        s\<lparr>status := error, description := Some (exn_message e)\<rparr>],
             failure = Some (s\<lparr>status := error, description := Some (exn_message e)\<rparr>, e),
             lastTxHash = tx\<rparr>, w')"
  using assms by (simp add: run_steps.simps(2) Let_def)

lemma run_steps_ok:
  assumes "ops (step_id s) w = (Inr hash, w')"
  shows "run_steps ops (s # rest) tx w =
           ((fst (run_steps ops rest (Some hash) w'))
              \<lparr>history := s\<lparr>status := completed\<rparr> # history (fst (run_steps ops rest (Some hash) w')),
               emitted := s\<lparr>status := loading\<rparr> # s\<lparr>status := completed\<rparr>
                            # emitted (fst (run_steps ops rest (Some hash) w'))\<rparr>,
            snd (run_steps ops rest (Some hash) w'))"
  using assms by (simp add: run_steps.simps(2) Let_def case_prod_beta)

lemma run_steps_history_ids:
  "map step_id (history (fst (run_steps ops plan tx w))) = map step_id plan"
proof (induction plan arbitrary: tx w)
  case Nil
  then show ?case by simp
next
  case (Cons s rest)
  obtain res w' where o: "ops (step_id s) w = (res, w')" by (cases "ops (step_id s) w")
  show ?case
  proof (cases res)
    case (Inl e)
    then show ?thesis using o by (simp add: run_steps_fail)
  next
    case (Inr hash)
    then show ?thesis using o Cons.IH by (simp add: run_steps_ok)
  qed
qed


lemma distinct_ids_other:
  assumes "distinct (map step_id (s # rest))" and "set (map step_id xs) \<subseteq> set (map step_id rest)"
  shows "list_all (\<lambda>x. step_id x \<noteq> step_id s) xs"
proof -
  have "step_id s \<notin> set (map step_id rest)" using assms(1) by simp
  then have "step_id s \<notin> set (map step_id xs)" using assms(2) by blast
  then show ?thesis by (force simp: list_all_iff image_iff)
qed

lemma run_steps_halts:
  assumes "list_all (\<lambda>s. status s = pending) plan"
      and "distinct (map step_id plan)"
      and "history (fst (run_steps ops plan tx w)) = pre @ st # post"
      and "status st = error"
  shows "failure (fst (run_steps ops plan tx w)) \<noteq> None
       \<and> list_all (\<lambda>s. status s = completed) pre
       \<and> list_all (\<lambda>s. status s = pending) post
       \<and> list_all (\<lambda>s. step_id s \<notin> set (map step_id (emitted (fst (run_steps ops plan tx w))))) post"
  using assms
proof (induction plan arbitrary: tx w pre)
  case Nil
  then show ?case by simp
next
  case (Cons s rest)
  obtain res w' where o: "ops (step_id s) w = (res, w')" by (cases "ops (step_id s) w")
  show ?case
  proof (cases res)
    case (Inl e)
    let ?failed = "s\<lparr>status := error, description := Some (exn_message e)\<rparr>"
    have run: "run_steps ops (s # rest) tx w =
           (\<lparr>history = ?failed # rest, emitted = [s\<lparr>status := loading\<rparr>, ?failed],
             failure = Some (?failed, e), lastTxHash = tx\<rparr>, w')"
      using o Inl by (simp add: run_steps_fail)
    have rest_pending: "list_all (\<lambda>s. status s = pending) rest" using Cons.prems(1) by simp
    have "pre = []"
    proof (cases pre)
      case Nil
      then show ?thesis .
    next
      case (Cons p pre')
      then have "rest = pre' @ st # post" using Cons.prems(3) run by simp
      then have "status st = pending" using rest_pending by simp
      then show ?thesis using Cons.prems(4) by simp
    qed
    then have post: "post = rest" using Cons.prems(3) run by simp
    have "list_all (\<lambda>x. step_id x \<noteq> step_id s) rest"
      by (rule distinct_ids_other [OF Cons.prems(2)]) simp
    then show ?thesis using \<open>pre = []\<close> post rest_pending run by (simp add: list_all_iff)
  next
    case (Inr hash)
    let ?r = "fst (run_steps ops rest (Some hash) w')"
    let ?finished = "s\<lparr>status := completed\<rparr>"
    have run: "run_steps ops (s # rest) tx w =
           (?r\<lparr>history := ?finished # history ?r,
               emitted := s\<lparr>status := loading\<rparr> # ?finished # emitted ?r\<rparr>,
            snd (run_steps ops rest (Some hash) w'))"
      using o Inr by (simp add: run_steps_ok)
    obtain pre' where pre: "pre = ?finished # pre'" and h': "history ?r = pre' @ st # post"
    proof (cases pre)
      case Nil
      then have "st = ?finished" using Cons.prems(3) run by simp
      then show ?thesis using Cons.prems(4) by simp
    next
      case (Cons p pre')
      then show ?thesis using Cons.prems(3) run that by simp
    qed
    have ih: "failure ?r \<noteq> None
       \<and> list_all (\<lambda>s. status s = completed) pre'
       \<and> list_all (\<lambda>s. status s = pending) post
       \<and> list_all (\<lambda>s. step_id s \<notin> set (map step_id (emitted ?r))) post"
      using Cons.IH [OF _ _ h' Cons.prems(4)] Cons.prems(1,2) by simp
    have "map step_id rest = map step_id pre' @ step_id st # map step_id post"
      using run_steps_history_ids [of ops rest "Some hash" w'] h' by simp
    then have "set (map step_id post) \<subseteq> set (map step_id rest)" by auto
    then have "list_all (\<lambda>x. step_id x \<noteq> step_id s) post"
      by (rule distinct_ids_other [OF Cons.prems(2)])
    then show ?thesis using ih pre run by (simp add: list_all_iff)
  qed
qed

text \<open>When the machine halts, the sub-operations that ran are those of the steps up to the failed one.\<close>

lemma run_steps_world_halts:
  assumes "list_all (\<lambda>s. status s = pending) plan"
      and "history (fst (run_steps ops plan tx w)) = pre @ st # post"
      and "status st = error"
  shows "snd (run_steps ops plan tx w) = world_after ops (map step_id pre @ [step_id st]) w"
  using assms
proof (induction plan arbitrary: tx w pre)
  case Nil
  then show ?case by simp
next
  case (Cons s rest)
  obtain res w' where o: "ops (step_id s) w = (res, w')" by (cases "ops (step_id s) w")
  show ?case
  proof (cases res)
    case (Inl e)
    let ?failed = "s\<lparr>status := error, description := Some (exn_message e)\<rparr>"
    have run: "run_steps ops (s # rest) tx w =
           (\<lparr>history = ?failed # rest, emitted = [s\<lparr>status := loading\<rparr>, ?failed],
             failure = Some (?failed, e), lastTxHash = tx\<rparr>, w')"
      using o Inl by (simp add: run_steps_fail)
    have rest_pending: "list_all (\<lambda>s. status s = pending) rest" using Cons.prems(1) by simp
    have "pre = []"
    proof (cases pre)
      case Nil
      then show ?thesis .
    next
      case (Cons p pre')
      then have "rest = pre' @ st # post" using Cons.prems(2) run by simp
      then have "status st = pending" using rest_pending by simp
      then show ?thesis using Cons.prems(3) by simp
    qed
    then have "st = ?failed" using Cons.prems(2) run by simp
    then show ?thesis using \<open>pre = []\<close> run o by (simp add: world_after_def)
  next
    case (Inr hash)
    let ?r = "fst (run_steps ops rest (Some hash) w')"
    let ?finished = "s\<lparr>status := completed\<rparr>"
    have run: "run_steps ops (s # rest) tx w =
           (?r\<lparr>history := ?finished # history ?r,
               emitted := s\<lparr>status := loading\<rparr> # ?finished # emitted ?r\<rparr>,
            snd (run_steps ops rest (Some hash) w'))"
      using o Inr by (simp add: run_steps_ok)
    obtain pre' where pre: "pre = ?finished # pre'" and h': "history ?r = pre' @ st # post"
    proof (cases pre)
      case Nil
      then have "st = ?finished" using Cons.prems(2) run by simp
      then show ?thesis using Cons.prems(3) by simp
    next
      case (Cons p pre')
      then show ?thesis using Cons.prems(2) run that by simp
    qed
    have "snd (run_steps ops rest (Some hash) w')
          = world_after ops (map step_id pre' @ [step_id st]) w'"
      using Cons.IH [OF _ h' Cons.prems(3)] Cons.prems(1) by simp
    then show ?thesis using pre run o by (simp add: world_after_def)
  qed
qed





lemma step_plan_pending: "list_all (\<lambda>s. status s = pending) (step_plan dir priv)"
  by (simp add: step_plan_def list_all_iff)

lemma step_plan_ids: "map step_id (step_plan dir priv) = step_table dir"
  by (simp add: step_plan_def comp_def)

lemma step_table_distinct: "distinct (step_table dir)"
  by (cases dir) (simp_all add: step_table_def)

lemma step_plan_distinct: "distinct (map step_id (step_plan dir priv))"
  by (simp add: step_plan_ids step_table_distinct)

lemma bridge_run:
  assumes "CompliantBridge_bridge ops nc dir req w = ((ev, Inr r), w')"
  shows "\<exists>tok. ev = emitted (fst (run_steps (perform ops (req\<lparr>token := tok\<rparr>))
                                    (step_plan dir (isPrivate req)) None w))
             \<and> steps r = history (fst (run_steps (perform ops (req\<lparr>token := tok\<rparr>))
                                    (step_plan dir (isPrivate req)) None w))
             \<and> success r = (failure (fst (run_steps (perform ops (req\<lparr>token := tok\<rparr>))
                                    (step_plan dir (isPrivate req)) None w)) = None)"
  using assms
  by (auto simp: CompliantBridge_bridge_def execute_def case_prod_beta
           split: option.splits if_splits)

lemma bridge_run_world:
  assumes "CompliantBridge_bridge ops nc dir req w = ((ev, Inr r), w')"
  shows "\<exists>tok. CompliantBridge_getToken nc (symbol (token req)) = Some tok
             \<and> steps r = history (fst (run_steps (perform ops (req\<lparr>token := tok\<rparr>))
                                    (step_plan dir (isPrivate req)) None w))
             \<and> w' = snd (run_steps (perform ops (req\<lparr>token := tok\<rparr>))
                                    (step_plan dir (isPrivate req)) None w)"
  using assms
  by (auto simp: CompliantBridge_bridge_def execute_def case_prod_beta
           split: option.splits if_splits)

lemma timeout_run:
  "CompliantBridge_bridge timeout_ops sample_network L2ToL1 sample_request 0
     = ((timeout_events, Inr timeout_result), 1)"
  by (simp add: CompliantBridge_bridge_def CompliantBridge_getToken_def execute_def
        run_steps.simps(2) step_plan_def step_table_def valid_amount_def is_digit_def
        timeout_ops_def sample_network_def sample_request_def sample_token_def
        timeout_events_def timeout_result_def burn_done_def proof_failed_def finalize_pending_def
        Let_def)

text \<open>
  C1: in every bridge run, when a step of the returned history ended in \<open>error\<close>, the machine
  halted there: the run's \<open>success\<close> is false, every step before it is \<open>completed\<close> and stays
  so in the history, every step after it is still \<open>pending\<close> and was never announced to the
  step sink, and the world the run leaves behind is the one after the sub-operations of the steps
  up to the failed one, in order, and of no later step.
\<close>

theorem first_error_halts:
  assumes "CompliantBridge_bridge ops nc dir req w = ((ev, Inr r), w')"
      and "steps r = pre @ st # post"
      and "status st = error"
  shows "\<not> success r
       \<and> list_all (\<lambda>s. status s = completed) pre
       \<and> list_all (\<lambda>s. status s = pending) post
       \<and> list_all (\<lambda>s. step_id s \<notin> set (map step_id ev)) post
       \<and> (\<exists>tok. CompliantBridge_getToken nc (symbol (token req)) = Some tok
              \<and> w' = world_after (perform ops (req\<lparr>token := tok\<rparr>))
                       (map step_id pre @ [step_id st]) w)"
proof -
  from bridge_run [OF assms(1)] obtain tok where
    "ev = emitted (fst (run_steps (perform ops (req\<lparr>token := tok\<rparr>))
                          (step_plan dir (isPrivate req)) None w))
     \<and> steps r = history (fst (run_steps (perform ops (req\<lparr>token := tok\<rparr>))
                          (step_plan dir (isPrivate req)) None w))
     \<and> success r = (failure (fst (run_steps (perform ops (req\<lparr>token := tok\<rparr>))
                          (step_plan dir (isPrivate req)) None w)) = None)" ..
  then have run:
    "ev = emitted (fst (run_steps (perform ops (req\<lparr>token := tok\<rparr>))
                          (step_plan dir (isPrivate req)) None w))"
    "steps r = history (fst (run_steps (perform ops (req\<lparr>token := tok\<rparr>))
                          (step_plan dir (isPrivate req)) None w))"
    "success r = (failure (fst (run_steps (perform ops (req\<lparr>token := tok\<rparr>))
                          (step_plan dir (isPrivate req)) None w)) = None)"
    by simp_all
  have h: "history (fst (run_steps (perform ops (req\<lparr>token := tok\<rparr>))
                          (step_plan dir (isPrivate req)) None w)) = pre @ st # post"
    using run(2) assms(2) by simp
  have first: "\<not> success r
       \<and> list_all (\<lambda>s. status s = completed) pre
       \<and> list_all (\<lambda>s. status s = pending) post
       \<and> list_all (\<lambda>s. step_id s \<notin> set (map step_id ev)) post"
    using run_steps_halts [OF step_plan_pending step_plan_distinct h assms(3)] run(1,3)
    by simp
  from bridge_run_world [OF assms(1)] obtain tok' where
    "CompliantBridge_getToken nc (symbol (token req)) = Some tok'
     \<and> steps r = history (fst (run_steps (perform ops (req\<lparr>token := tok'\<rparr>))
                          (step_plan dir (isPrivate req)) None w))
     \<and> w' = snd (run_steps (perform ops (req\<lparr>token := tok'\<rparr>))
                          (step_plan dir (isPrivate req)) None w)" ..
  then have w:
    "CompliantBridge_getToken nc (symbol (token req)) = Some tok'"
    "history (fst (run_steps (perform ops (req\<lparr>token := tok'\<rparr>))
                          (step_plan dir (isPrivate req)) None w)) = pre @ st # post"
    "w' = snd (run_steps (perform ops (req\<lparr>token := tok'\<rparr>))
                          (step_plan dir (isPrivate req)) None w)"
    using assms(2) by simp_all
  have "w' = world_after (perform ops (req\<lparr>token := tok'\<rparr>)) (map step_id pre @ [step_id st]) w"
    unfolding w(3) by (rule run_steps_world_halts [OF step_plan_pending w(2) assms(3)])
  then have "\<exists>tok. CompliantBridge_getToken nc (symbol (token req)) = Some tok
              \<and> w' = world_after (perform ops (req\<lparr>token := tok\<rparr>))
                       (map step_id pre @ [step_id st]) w"
    using w(1) by blast
  then show ?thesis using first by (intro conjI) blast+
qed

theorem first_error_halts_witness:
  "CompliantBridge_bridge timeout_ops sample_network L2ToL1 sample_request 0
     = ((timeout_events, Inr timeout_result), 1)
   \<and> steps timeout_result = [burn_done] @ proof_failed # [finalize_pending]
   \<and> status proof_failed = error
   \<and> \<not> success timeout_result
   \<and> list_all (\<lambda>s. status s = completed) [burn_done]
   \<and> list_all (\<lambda>s. status s = pending) [finalize_pending]
   \<and> list_all (\<lambda>s. step_id s \<notin> set (map step_id timeout_events)) [finalize_pending]
   \<and> (\<exists>tok. CompliantBridge_getToken sample_network (symbol (token sample_request)) = Some tok
          \<and> 1 = world_after (perform timeout_ops (sample_request\<lparr>token := tok\<rparr>))
                  (map step_id [burn_done] @ [step_id proof_failed]) 0)
   \<and> world_after (perform timeout_ops sample_request) [burn_on_l2, wait_for_proof] 0 = 1
   \<and> world_after (perform timeout_ops sample_request)
         [burn_on_l2, wait_for_proof, finalize_withdrawal_on_l1] 0 = 2"
proof -
  have d: "steps timeout_result = [burn_done] @ proof_failed # [finalize_pending]"
    by (simp add: timeout_result_def)
  have e: "status proof_failed = error" by (simp add: proof_failed_def)
  have v: "world_after (perform timeout_ops sample_request) [burn_on_l2, wait_for_proof] 0 = 1"
    "world_after (perform timeout_ops sample_request)
         [burn_on_l2, wait_for_proof, finalize_withdrawal_on_l1] 0 = 2"
    by (simp_all add: world_after_def timeout_ops_def)
  show ?thesis
    using timeout_run d e v first_error_halts [OF timeout_run d e] by (intro conjI) blast+
qed





end
